theory Spec2Isabelle
  imports Main
begin

section \<open>Remote file nodes: create-remote-file-node.js of gatsby-source-filesystem\<close>

text \<open>
  The module downloads a remote file into the plugin's cache directory and turns it
  into a File node. It keeps a process-wide index of promises by url
  (\<open>processingCache\<close>), pushes each new url as a task on a queue with 200 workers,
  and each worker runs \<open>processRemoteNode\<close> on its task.

  The embedding follows the source function by function. What the outside world does
  during one task (the network, the disk, the Gatsby cache) is an input of the model:
  a record of outcomes, one per external call. Library functions that the module only
  calls (\<open>isWebUri\<close>, \<open>path.join\<close>, md5, \<open>getRemoteFileName\<close>, \<open>fileType\<close>, ...)
  are fields of a record the model takes as a parameter, so every theorem holds for
  all of them.
\<close>

subsection \<open>Values at the interface\<close>

type_synonym path = string
type_synonym bytes = string

datatype error = Error string | TypeError string | IOError string

text \<open>The kinds of JavaScript value that \<open>typeof\<close> tells apart, with null apart
  from the other objects.\<close>

datatype js_kind =
  KUndefined | KNull | KBoolean | KNumber | KString | KSymbol | KFunction | KObject

fun typeof :: "js_kind \<Rightarrow> string" where
  "typeof KUndefined = ''undefined''"
| "typeof KNull = ''object''"
| "typeof KBoolean = ''boolean''"
| "typeof KNumber = ''number''"
| "typeof KString = ''string''"
| "typeof KSymbol = ''symbol''"
| "typeof KFunction = ''function''"
| "typeof KObject = ''object''"

text \<open>\<open>store\<close>: the redux store, whose state holds \<open>program.directory\<close>, or some
  other value. \<open>cache\<close>: the Gatsby cache (its content is part of the world below),
  or some other value.\<close>

datatype js_store = Store string | StoreOther js_kind

datatype js_cache = Cache | CacheOther js_kind

fun typeof_store :: "js_store \<Rightarrow> string" where
  "typeof_store (Store d) = ''object''"
| "typeof_store (StoreOther k) = typeof k"

fun typeof_cache :: "js_cache \<Rightarrow> string" where
  "typeof_cache Cache = ''object''"
| "typeof_cache (CacheOther k) = typeof k"

text \<open>The Auth object: each credential is a string or undefined (\<open>None\<close>).\<close>

record credentials =
  htaccess_user :: "string option"
  htaccess_pass :: "string option"

datatype js_auth = AuthUndefined | AuthNull | Auth credentials

text \<open>CreateRemoteFileNodePayload. \<open>url\<close> is a string or undefined; \<open>createNode\<close>
  and \<open>createNodeId\<close> are known by their kind only (what calling them does is an
  outcome of the world); \<open>ext\<close> is a string or null.\<close>

record payload =
  url :: "string option"
  store :: js_store
  cache :: js_cache
  createNode :: js_kind
  createNodeId :: js_kind
  auth :: js_auth
  ext :: "string option"

text \<open>Truthiness of a string-or-undefined value, and its rendering inside a template
  literal.\<close>

fun truthy :: "string option \<Rightarrow> bool" where
  "truthy None = False"
| "truthy (Some s) = (s \<noteq> [])"

fun render :: "string option \<Rightarrow> string" where
  "render None = ''undefined''"
| "render (Some s) = s"

text \<open>Parameter defaults of the destructured argument: \<open>auth = {}\<close> applies to
  undefined only.\<close>

fun default_auth :: "js_auth \<Rightarrow> js_auth" where
  "default_auth AuthUndefined = Auth \<lparr>htaccess_user = None, htaccess_pass = None\<rparr>"
| "default_auth a = a"

subsection \<open>Libraries the module calls\<close>

text \<open>
  \<open>isWebUri\<close>: whether valid-url's \<open>isWebUri\<close> returns a value (not undefined);
  \<open>md5_hex\<close>: the hex md5 digest of crypto; \<open>path_join\<close>, \<open>path_dirname\<close>: of path;
  \<open>getRemoteFileName\<close>, \<open>getRemoteFileExtension\<close>: of ./utils;
  \<open>fileType\<close>: the \<open>ext\<close> of file-type's answer on a buffer, if it gives one;
  \<open>minimumBytes\<close>: \<open>fileType.minimumBytes\<close>;
  \<open>createFileNode\<close>: of ./create-file-node, on the files of the disk and a path
  (\<open>Inl\<close> when it throws).
\<close>

record 'n lib =
  isWebUri :: "string \<Rightarrow> bool"
  md5_hex :: "string \<Rightarrow> string"
  path_join :: "string list \<Rightarrow> string"
  path_dirname :: "string \<Rightarrow> string"
  getRemoteFileName :: "string \<Rightarrow> string"
  getRemoteFileExtension :: "string \<Rightarrow> string"
  fileType :: "bytes \<Rightarrow> string option"
  minimumBytes :: nat
  createFileNode :: "(path \<Rightarrow> bytes option) \<Rightarrow> path \<Rightarrow> error + 'n"

definition createHash :: "'n lib \<Rightarrow> string \<Rightarrow> string" where
  "createHash L str = md5_hex L str"

definition CACHE_DIR :: string where
  "CACHE_DIR = ''.cache''"

definition FS_PLUGIN_DIR :: string where
  "FS_PLUGIN_DIR = ''gatsby-source-filesystem''"

definition cacheId :: "string \<Rightarrow> string" where
  "cacheId u = ''create-remote-file-node-'' @ u"

definition createFilePath :: "'n lib \<Rightarrow> string \<Rightarrow> string \<Rightarrow> string \<Rightarrow> string" where
  "createFilePath L directory filename e = path_join L [directory, filename @ e]"

subsection \<open>The world a task acts on\<close>

type_synonym resp_headers = "(string \<times> string) list"

record req_headers =
  h_auth :: "string option"
  h_if_none_match :: "string option"

text \<open>One call of \<open>got.stream\<close>: the url, the headers spread into the options, the
  timeout and the retries.\<close>

datatype got_call = GotStream string req_headers nat nat

datatype 'n file_node = FileNode (base: 'n) (description: string)

text \<open>
  \<open>files\<close>, \<open>dirs\<close>: the disk; \<open>hcache\<close>: the Gatsby cache, by key;
  \<open>created\<close>: the calls of the caller's \<open>createNode\<close>, each with the plugin name
  it was given; \<open>requests\<close>: the calls of \<open>got.stream\<close>; \<open>reads\<close>: the files
  \<open>readChunk.sync\<close> was called on.
\<close>

record 'n world =
  files :: "path \<Rightarrow> bytes option"
  dirs :: "path set"
  hcache :: "string \<Rightarrow> resp_headers option"
  created :: "('n file_node \<times> string) list"
  requests :: "got_call list"
  reads :: "path list"

text \<open>
  What the two streams of one download do. \<open>ResponseError e b\<close>: the response stream
  emits \<open>error\<close> (a 400/500 response or a network failure) after \<open>b\<close> was piped to
  the temp file. \<open>WriteError e b\<close>: the file stream emits \<open>error\<close>, having written
  \<open>b\<close> (\<open>None\<close>: the file was never created). \<open>Response st hs body\<close>: the response
  arrives with status \<open>st\<close> and headers \<open>hs\<close>, and the file stream finishes after
  writing \<open>body\<close>.
\<close>

datatype stream_outcome =
  ResponseError error bytes
| WriteError error "bytes option"
| Response nat resp_headers bytes

record response =
  statusCode :: nat
  headers :: resp_headers

text \<open>What the outside world does during one task: for each external call that can
  fail, the error it fails with (\<open>None\<close>: it succeeds).\<close>

record effects =
  ensureDir_error :: "error option"
  cache_get_error :: "error option"
  stream :: stream_outcome
  cache_set_error :: "error option"
  readChunk_error :: "error option"
  move_error :: "error option"
  remove_error :: "error option"
  createNode_error :: "error option"

text \<open>
  An action on the world either throws (\<open>Inl\<close>) or returns a value (\<open>Inr\<close>), and
  leaves a world behind in both cases. \<open>seq m f\<close> is \<open>m\<close> followed by \<open>f\<close> on its
  value, as one statement follows another (or an \<open>await\<close>): an exception of \<open>m\<close>
  skips \<open>f\<close>.
\<close>

type_synonym ('n, 'a) action = "'n world \<Rightarrow> (error + 'a) \<times> 'n world"

definition seq :: "('n, 'a) action \<Rightarrow> ('a \<Rightarrow> ('n, 'b) action) \<Rightarrow> ('n, 'b) action" where
  "seq m f w = (case m w of (Inl e, w') \<Rightarrow> (Inl e, w') | (Inr a, w') \<Rightarrow> f a w')"

definition return :: "'a \<Rightarrow> ('n, 'a) action" where
  "return a w = (Inr a, w)"

definition throw :: "error \<Rightarrow> ('n, 'a) action" where
  "throw e w = (Inl e, w)"

definition fs_ensureDir :: "effects \<Rightarrow> path \<Rightarrow> ('n, unit) action" where
  "fs_ensureDir E d w =
     (case ensureDir_error E of
        Some e \<Rightarrow> (Inl e, w)
      | None \<Rightarrow> (Inr (), w\<lparr>dirs := insert d (dirs w)\<rparr>))"

definition cache_get ::
  "effects \<Rightarrow> js_cache \<Rightarrow> string \<Rightarrow> ('n, resp_headers option) action" where
  "cache_get E c k w =
     (case c of
        CacheOther kind \<Rightarrow> (Inl (TypeError ''cache.get is not a function''), w)
      | Cache \<Rightarrow>
          (case cache_get_error E of
             Some e \<Rightarrow> (Inl e, w)
           | None \<Rightarrow> (Inr (hcache w k), w)))"

definition cache_set :: "effects \<Rightarrow> string \<Rightarrow> resp_headers \<Rightarrow> ('n, unit) action" where
  "cache_set E k v w =
     (case cache_set_error E of
        Some e \<Rightarrow> (Inl e, w)
      | None \<Rightarrow> (Inr (), w\<lparr>hcache := (hcache w)(k \<mapsto> v)\<rparr>))"

definition readChunk_sync :: "effects \<Rightarrow> path \<Rightarrow> nat \<Rightarrow> ('n, bytes) action" where
  "readChunk_sync E p n w =
     (case readChunk_error E of
        Some e \<Rightarrow> (Inl e, w\<lparr>reads := reads w @ [p]\<rparr>)
      | None \<Rightarrow>
          (case files w p of
             None \<Rightarrow> (Inl (IOError ''ENOENT''), w\<lparr>reads := reads w @ [p]\<rparr>)
           | Some b \<Rightarrow> (Inr (take n b), w\<lparr>reads := reads w @ [p]\<rparr>)))"

text \<open>\<open>fs.move\<close> with \<open>overwrite: true\<close>: the destination's directory is made, the
  content replaces whatever the destination held, and the source is gone. A move of
  a file onto itself changes nothing.\<close>

definition fs_move :: "'n lib \<Rightarrow> effects \<Rightarrow> path \<Rightarrow> path \<Rightarrow> ('n, unit) action" where
  "fs_move L E src dest w =
     (case move_error E of
        Some e \<Rightarrow> (Inl e, w)
      | None \<Rightarrow>
          (case files w src of
             None \<Rightarrow> (Inl (IOError ''ENOENT''), w)
           | Some b \<Rightarrow>
               (Inr (),
                if src = dest then w
                else w\<lparr>files := ((files w)(dest \<mapsto> b))(src := None),
                       dirs := insert (path_dirname L dest) (dirs w)\<rparr>)))"

definition fs_remove :: "effects \<Rightarrow> path \<Rightarrow> ('n, unit) action" where
  "fs_remove E p w =
     (case remove_error E of
        Some e \<Rightarrow> (Inl e, w)
      | None \<Rightarrow> (Inr (), w\<lparr>files := (files w)(p := None)\<rparr>))"

definition call_createFileNode :: "'n lib \<Rightarrow> path \<Rightarrow> ('n, 'n) action" where
  "call_createFileNode L p w = (createFileNode L (files w) p, w)"

definition call_createNode :: "effects \<Rightarrow> js_kind \<Rightarrow> 'n file_node \<Rightarrow> ('n, unit) action" where
  "call_createNode E f n w =
     (if f \<noteq> KFunction then (Inl (TypeError ''createNode is not a function''), w)
      else
        (case createNode_error E of
           Some e \<Rightarrow> (Inl e, w)
         | None \<Rightarrow> (Inr (), w\<lparr>created := created w @ [(n, ''gatsby-source-filesystem'')]\<rparr>)))"

subsection \<open>requestRemoteNode\<close>

text \<open>
  The promise of \<open>requestRemoteNode\<close> settles with the first event: it rejects with
  the error of either stream, or resolves with the response once the file stream has
  finished. Only the handler of the response stream's error removes the temp file.
\<close>

definition requestRemoteNode ::
  "stream_outcome \<Rightarrow> string \<Rightarrow> req_headers \<Rightarrow> path \<Rightarrow> ('n, response) action" where
  "requestRemoteNode so u hs tmp w =
     (case so of
        ResponseError e b \<Rightarrow>
          (Inl e,
           w\<lparr>requests := requests w @ [GotStream u hs 30000 5],
             files := (files w)(tmp := None)\<rparr>)
      | WriteError e b \<Rightarrow>
          (Inl e,
           w\<lparr>requests := requests w @ [GotStream u hs 30000 5],
             files := (case b of None \<Rightarrow> files w | Some written \<Rightarrow> (files w)(tmp \<mapsto> written))\<rparr>)
      | Response st rh body \<Rightarrow>
          (Inr \<lparr>statusCode = st, headers = rh\<rparr>,
           w\<lparr>requests := requests w @ [GotStream u hs 30000 5],
             files := (files w)(tmp \<mapsto> body)\<rparr>))"

subsection \<open>processRemoteNode\<close>

text \<open>The request headers: htaccess authentication if passed in, and the etag of the
  cached response headers as If-None-Match.\<close>

definition auth_header :: "js_auth \<Rightarrow> string option" where
  "auth_header a =
     (case a of
        Auth c \<Rightarrow>
          (if truthy (htaccess_pass c) \<or> truthy (htaccess_user c)
           then Some (render (htaccess_user c) @ '':'' @ render (htaccess_pass c))
           else None)
      | _ \<Rightarrow> None)"

definition etag_header :: "resp_headers option \<Rightarrow> string option" where
  "etag_header cachedHeaders =
     (case cachedHeaders of
        None \<Rightarrow> None
      | Some hs \<Rightarrow>
          (case map_of hs ''etag'' of
             None \<Rightarrow> None
           | Some t \<Rightarrow> if t \<noteq> [] then Some t else None))"

definition request_headers :: "js_auth \<Rightarrow> resp_headers option \<Rightarrow> req_headers" where
  "request_headers a cachedHeaders =
     \<lparr>h_auth = auth_header a, h_if_none_match = etag_header cachedHeaders\<rparr>"

text \<open>\<open>if (!ext) ext = getRemoteFileExtension(url)\<close>\<close>

definition first_ext :: "'n lib \<Rightarrow> string option \<Rightarrow> string \<Rightarrow> string" where
  "first_ext L e u =
     (case e of
        None \<Rightarrow> getRemoteFileExtension L u
      | Some x \<Rightarrow> if x = [] then getRemoteFileExtension L u else x)"

text \<open>The guess of an extension from the first bytes of the temp file, made only when
  the extension is the empty string.\<close>

definition guess_ext :: "'n lib \<Rightarrow> effects \<Rightarrow> path \<Rightarrow> string \<Rightarrow> ('n, string) action" where
  "guess_ext L E tmp e =
     (if e = [] then
        seq (readChunk_sync E tmp (minimumBytes L)) (\<lambda>buffer.
        return (case fileType L buffer of Some ft \<Rightarrow> ''.'' @ ft | None \<Rightarrow> e))
      else return e)"

definition pluginCacheDir :: "'n lib \<Rightarrow> string \<Rightarrow> path" where
  "pluginCacheDir L directory = path_join L [directory, CACHE_DIR, FS_PLUGIN_DIR]"

definition tmpFilename :: "'n lib \<Rightarrow> string \<Rightarrow> string \<Rightarrow> string \<Rightarrow> path" where
  "tmpFilename L directory u e =
     createFilePath L (pluginCacheDir L directory) (''tmp-'' @ createHash L u) e"

definition filename :: "'n lib \<Rightarrow> string \<Rightarrow> string \<Rightarrow> string \<Rightarrow> path" where
  "filename L directory u e =
     createFilePath L (path_join L [pluginCacheDir L directory, createHash L u])
       (getRemoteFileName L u) e"

definition file_description :: "string \<Rightarrow> string" where
  "file_description u = ''File '' @ [CHR 0x22] @ u @ [CHR 0x22]"

text \<open>
  The second half of the \<open>try\<close>, once the response is there and its headers are
  saved: guess the extension if there is none, move the temp file to the real name on
  a 200 and remove it otherwise, create the file node and hand it to \<open>createNode\<close>.
  \<open>ext1\<close> is the extension the temp file is named with.
\<close>

definition materialise ::
  "'n lib \<Rightarrow> effects \<Rightarrow> payload \<Rightarrow> string \<Rightarrow> string \<Rightarrow> string \<Rightarrow> response
     \<Rightarrow> ('n, 'n file_node) action" where
  "materialise L E t u directory ext1 resp =
     seq (guess_ext L E (tmpFilename L directory u ext1) ext1) (\<lambda>ext2.
     seq (if statusCode resp = 200
          then fs_move L E (tmpFilename L directory u ext1) (filename L directory u ext2)
          else fs_remove E (tmpFilename L directory u ext1)) (\<lambda>_.
     seq (call_createFileNode L (filename L directory u ext2)) (\<lambda>n.
     seq (call_createNode E (createNode t) (FileNode n (file_description u))) (\<lambda>_.
     return (FileNode n (file_description u))))))"

text \<open>The body of the \<open>try\<close>: fetch the file, save the response headers for future
  requests, and materialise.\<close>

definition fetch_block ::
  "'n lib \<Rightarrow> effects \<Rightarrow> payload \<Rightarrow> string \<Rightarrow> string \<Rightarrow> req_headers \<Rightarrow> string
     \<Rightarrow> ('n, 'n file_node) action" where
  "fetch_block L E t u directory hs ext1 =
     seq (requestRemoteNode (stream E) u hs (tmpFilename L directory u ext1)) (\<lambda>resp.
     seq (cache_set E (cacheId u) (headers resp)) (\<lambda>_.
     materialise L E t u directory ext1 resp))"

text \<open>What a promise resolves to: undefined, null, a File node, or an error object
  handed over as a value.\<close>

datatype 'n js_value = Undefined | Null | NodeValue "'n file_node" | ErrorValue error

text \<open>\<open>try { ... return fileNode } catch (err) { } return null\<close>\<close>

definition try_or_null :: "('n, 'n file_node) action \<Rightarrow> ('n, 'n js_value) action" where
  "try_or_null m w =
     (case m w of
        (Inl err, w') \<Rightarrow> (Inr Null, w')
      | (Inr fileNode, w') \<Rightarrow> (Inr (NodeValue fileNode), w'))"

text \<open>
  \<open>processRemoteNode\<close>: \<open>Inl e\<close> is the rejection of its promise with \<open>e\<close>, which only
  the statements before the \<open>try\<close> can cause.
\<close>

definition processRemoteNode :: "'n lib \<Rightarrow> effects \<Rightarrow> payload \<Rightarrow> ('n, 'n js_value) action" where
  "processRemoteNode L E t =
     (case store t of
        StoreOther k \<Rightarrow> throw (TypeError ''store.getState is not a function'')
      | Store directory \<Rightarrow>
          seq (fs_ensureDir E (pluginCacheDir L directory)) (\<lambda>_.
          seq (cache_get E (cache t) (cacheId (render (url t)))) (\<lambda>cachedHeaders.
          (case url t of
             None \<Rightarrow> throw (TypeError ''Data must be a string or a buffer'')
           | Some u \<Rightarrow>
               try_or_null
                 (fetch_block L E t u directory
                    (request_headers (default_auth (auth t)) cachedHeaders)
                    (first_ext L (ext t) u))))))"

subsection \<open>The queue\<close>

text \<open>\<open>pushToQueue\<close>: the worker of the queue. It always calls back with no error;
  the result is the node, or the error it caught.\<close>

definition pushToQueue ::
  "'n lib \<Rightarrow> effects \<Rightarrow> payload \<Rightarrow> 'n world
     \<Rightarrow> (error option \<times> 'n js_value) \<times> 'n world" where
  "pushToQueue L E task w =
     (case processRemoteNode L E task w of
        (Inr node, w') \<Rightarrow> ((None, node), w')
      | (Inl e, w') \<Rightarrow> ((None, ErrorValue e), w'))"

text \<open>The handlers \<open>pushTask\<close> puts on the ticket: \<open>finish\<close> resolves with the
  result, \<open>failed\<close> resolves with undefined.\<close>

definition ticket_value :: "error option \<times> 'n js_value \<Rightarrow> 'n js_value" where
  "ticket_value cb = (case fst cb of None \<Rightarrow> snd cb | Some e \<Rightarrow> Undefined)"

datatype 'n promise = Pending | Resolved "'n js_value" | Rejected error

definition resolve :: "nat \<Rightarrow> 'n js_value \<Rightarrow> 'n promise list \<Rightarrow> 'n promise list" where
  "resolve p v ps = (if p < length ps \<and> ps ! p = Pending then ps[p := Resolved v] else ps)"

definition concurrent :: nat where
  "concurrent = 200"

text \<open>
  The module's state: the own properties of \<open>processingCache\<close> (url to promise, a
  promise being its index in \<open>promises\<close>), the promises made so far, the tasks the
  queue holds and the tasks its workers run (each with the promise its ticket
  resolves), and the world.
\<close>

record 'n system =
  processingCache :: "string \<Rightarrow> nat option"
  promises :: "'n promise list"
  waiting :: "(payload \<times> nat) list"
  running :: "(payload \<times> nat) list"
  world :: "'n world"

definition init :: "'n system" where
  "init =
     \<lparr>processingCache = Map.empty, promises = [], waiting = [], running = [],
      world = \<lparr>files = Map.empty, dirs = {}, hcache = Map.empty, created = [],
               requests = [], reads = []\<rparr>\<rparr>"

text \<open>
  Modelled from the spec: the scheduler of the better-queue package, whose code is
  not part of the module. "Executes submitted tasks with a fixed maximum concurrency
  (default 200 concurrent fetches); excess tasks wait in admission order." The module
  configures it with \<open>concurrent: 200\<close>. A pushed task joins the end of the waiting
  tasks; a worker is started on the first waiting task when fewer than \<open>concurrent\<close>
  run; a worker that calls back leaves the running tasks and its ticket fires. The
  queue's \<open>merge\<close> option is not modelled: it applies to a task pushed while one with
  the same url waits, and the entry point never pushes a url twice (\<open>at_most_once\<close>
  below).
\<close>

definition queue_push :: "payload \<Rightarrow> nat \<Rightarrow> 'n system \<Rightarrow> 'n system" where
  "queue_push task p s = s\<lparr>waiting := waiting s @ [(task, p)]\<rparr>"

text \<open>Modelled from the spec: better-queue starting a worker. "No more than the
  configured number of Atomic Fetch Executor invocations run simultaneously"; the first
  waiting task is the one started.\<close>

definition queue_start :: "'n system \<Rightarrow> 'n system" where
  "queue_start s =
     (case waiting s of
        [] \<Rightarrow> s
      | x # xs \<Rightarrow>
          if length (running s) < concurrent
          then s\<lparr>waiting := xs, running := running s @ [x]\<rparr>
          else s)"

text \<open>Modelled from the spec: better-queue running the worker \<open>pushToQueue\<close> on the
  task with ticket \<open>p\<close> and firing the ticket with what the worker called back:
  "on task completion (success or failure), the outcome is delivered". The worker and
  the ticket's handlers are the module's own.\<close>

definition queue_finish :: "'n lib \<Rightarrow> nat \<Rightarrow> effects \<Rightarrow> 'n system \<Rightarrow> 'n system" where
  "queue_finish L p E s =
     (case find (\<lambda>x. snd x = p) (running s) of
        None \<Rightarrow> s
      | Some x \<Rightarrow>
          (case pushToQueue L E (fst x) (world s) of
             (cb, w') \<Rightarrow>
               s\<lparr>running := filter (\<lambda>y. snd y \<noteq> p) (running s),
                 promises := resolve p (ticket_value cb) (promises s),
                 world := w'\<rparr>))"

subsection \<open>The entry point\<close>

text \<open>
  \<open>processingCache\<close> is an object literal, so reading \<open>processingCache[url]\<close> finds
  the own property if there is one, and otherwise what the object inherits from
  \<open>Object.prototype\<close> under that name; an undefined url is read as the key
  \<open>undefined\<close>. All inherited members are functions or objects, hence truthy.
\<close>

definition object_prototype_keys :: "string list" where
  "object_prototype_keys =
     [''constructor'', ''__defineGetter__'', ''__defineSetter__'', ''hasOwnProperty'',
      ''__lookupGetter__'', ''__lookupSetter__'', ''isPrototypeOf'',
      ''propertyIsEnumerable'', ''toString'', ''valueOf'', ''__proto__'',
      ''toLocaleString'']"

text \<open>What the entry point returns: a promise, or a member of \<open>Object.prototype\<close>.\<close>

datatype returned = Promise nat | Inherited string

definition processingCache_get :: "(string \<Rightarrow> nat option) \<Rightarrow> string option \<Rightarrow> returned option" where
  "processingCache_get pc u =
     (case pc (render u) of
        Some p \<Rightarrow> Some (Promise p)
      | None \<Rightarrow>
          if render u \<in> set object_prototype_keys then Some (Inherited (render u))
          else None)"

text \<open>\<open>pushTask\<close>: a new promise, whose executor pushes the task with the ticket
  that resolves it.\<close>

definition pushTask :: "payload \<Rightarrow> 'n system \<Rightarrow> nat \<times> 'n system" where
  "pushTask task s =
     (length (promises s),
      queue_push task (length (promises s)) (s\<lparr>promises := promises s @ [Pending]\<rparr>))"

text \<open>\<open>module.exports\<close>: \<open>Inl\<close> is the Error it throws.\<close>

definition createRemoteFileNode ::
  "'n lib \<Rightarrow> payload \<Rightarrow> 'n system \<Rightarrow> error + (returned \<times> 'n system)" where
  "createRemoteFileNode L r s =
     (if typeof (createNodeId r) \<noteq> ''function'' then
        Inl (Error (''createNodeId must be a function, was '' @ typeof (createNodeId r)))
      else if typeof (createNode r) \<noteq> ''function'' then
        Inl (Error (''createNode must be a function, was '' @ typeof (createNode r)))
      else if typeof_store (store r) \<noteq> ''object'' then
        Inl (Error (''store must be the redux store, was '' @ typeof_store (store r)))
      else if typeof_cache (cache r) \<noteq> ''object'' then
        Inl (Error (''cache must be the Gatsby cache, was '' @ typeof_cache (cache r)))
      else
        (case processingCache_get (processingCache s) (url r) of
           Some v \<Rightarrow> Inr (v, s)
         | None \<Rightarrow>
             (case url r of
                None \<Rightarrow>
                  Inr (Promise (length (promises s)),
                       s\<lparr>promises := promises s @ [Resolved Undefined]\<rparr>)
              | Some u \<Rightarrow>
                  if u = [] \<or> \<not> isWebUri L u then
                    Inr (Promise (length (promises s)),
                         s\<lparr>promises := promises s @ [Resolved Undefined]\<rparr>)
                  else
                    (case pushTask (r\<lparr>auth := default_auth (auth r)\<rparr>) s of
                       (p, s') \<Rightarrow>
                         Inr (Promise p,
                              s'\<lparr>processingCache := (processingCache s')(u \<mapsto> p)\<rparr>)))))"

subsection \<open>Runs\<close>

text \<open>What happens to the module, one event at a time: a call of the entry point, the
  queue starting a worker, or the worker of the task with ticket \<open>p\<close> finishing in a
  world that behaved as \<open>E\<close>. A call that throws leaves the state as it was. A task
  runs between its \<open>Start\<close> and its \<open>Finish\<close>; what it does to the world is
  applied at its \<open>Finish\<close>, in one step. A download that never settles is a task
  that never finishes.\<close>

datatype event = Submit payload | Start | Finish nat effects

fun step :: "'n lib \<Rightarrow> event \<Rightarrow> 'n system \<Rightarrow> 'n system" where
  "step L (Submit r) s =
     (case createRemoteFileNode L r s of Inl e \<Rightarrow> s | Inr (v, s') \<Rightarrow> s')"
| "step L Start s = queue_start s"
| "step L (Finish p E) s = queue_finish L p E s"

fun run :: "'n lib \<Rightarrow> 'n system \<Rightarrow> event list \<Rightarrow> 'n system" where
  "run L s [] = s"
| "run L s (e # es) = run L (step L e s) es"

subsection \<open>Notions the properties are stated with\<close>

text \<open>The four checks of the entry point pass.\<close>

definition valid_config :: "payload \<Rightarrow> bool" where
  "valid_config r =
     (typeof (createNodeId r) = ''function'' \<and> typeof (createNode r) = ''function'' \<and>
      typeof_store (store r) = ''object'' \<and> typeof_cache (cache r) = ''object'')"

text \<open>The value of \<open>ext\<close> when the final file name is made, for a temp file that holds
  \<open>body\<close> and can be read.\<close>

definition final_ext :: "'n lib \<Rightarrow> string option \<Rightarrow> string \<Rightarrow> bytes \<Rightarrow> string" where
  "final_ext L e u body =
     (if first_ext L e u = []
      then (case fileType L (take (minimumBytes L) body) of
              Some ft \<Rightarrow> ''.'' @ ft
            | None \<Rightarrow> [])
      else first_ext L e u)"

fun got_url :: "got_call \<Rightarrow> string" where
  "got_url (GotStream u hs tmo n) = u"

text \<open>How many downloads of \<open>u\<close> were started.\<close>

definition fetches :: "string \<Rightarrow> 'n world \<Rightarrow> nat" where
  "fetches u w = length (filter (\<lambda>c. got_url c = u) (requests w))"

text \<open>How many tasks for \<open>u\<close> the queue holds, waiting or running.\<close>

definition queued :: "string \<Rightarrow> 'n system \<Rightarrow> nat" where
  "queued u s = length (filter (\<lambda>x. url (fst x) = Some u) (waiting s @ running s))"

text \<open>Calls of the entry point one after the other, with what each returned.\<close>

fun submit_all ::
  "'n lib \<Rightarrow> payload list \<Rightarrow> 'n system \<Rightarrow> (error + returned) list \<times> 'n system" where
  "submit_all L [] s = ([], s)"
| "submit_all L (r # rs) s =
     (case createRemoteFileNode L r s of
        Inl e \<Rightarrow> (case submit_all L rs s of (vs, s') \<Rightarrow> (Inl e # vs, s'))
      | Inr (v, s1) \<Rightarrow> (case submit_all L rs s1 of (vs, s') \<Rightarrow> (Inr v # vs, s')))"

text \<open>The task gets as far as the \<open>try\<close>: nothing before it throws.\<close>

definition reaches_fetch :: "effects \<Rightarrow> payload \<Rightarrow> string \<Rightarrow> string \<Rightarrow> bool" where
  "reaches_fetch E t d u =
     (store t = Store d \<and> url t = Some u \<and> cache t = Cache \<and>
      ensureDir_error E = None \<and> cache_get_error E = None)"

text \<open>The tickets of the tasks in the queue are promises that exist.\<close>

definition tickets_exist :: "'n system \<Rightarrow> bool" where
  "tickets_exist s = (\<forall>x \<in> set (running s @ waiting s). snd x < length (promises s))"

text \<open>Only web uris are keys of the index.\<close>

definition keys_are_web_uris :: "'n lib \<Rightarrow> 'n system \<Rightarrow> bool" where
  "keys_are_web_uris L s = (\<forall>u \<in> dom (processingCache s). u \<noteq> [] \<and> isWebUri L u)"

text \<open>A url that is not in the index has no task and no download; one that is has at
  most one of the two.\<close>

definition at_most_once :: "string \<Rightarrow> 'n system \<Rightarrow> bool" where
  "at_most_once u s =
     (queued u s + fetches u (world s)
        \<le> (case processingCache s u of None \<Rightarrow> 0 | Some p \<Rightarrow> 1))"

text \<open>Tickets are promise indices, given out in the order of admission: the tickets of
  the running tasks followed by those of the waiting tasks increase.\<close>

definition tickets_in_order :: "'n system \<Rightarrow> bool" where
  "tickets_in_order s = sorted_wrt (<) (map snd (running s @ waiting s))"

text \<open>Every task in the queue is for the url whose entry in the index is its ticket.\<close>

definition tickets_indexed :: "'n system \<Rightarrow> bool" where
  "tickets_indexed s =
     (\<forall>x \<in> set (waiting s @ running s).
        \<exists>u. url (fst x) = Some u \<and> processingCache s u = Some (snd x))"

text \<open>The promise of every task in the queue is pending.\<close>

definition tickets_pending :: "'n system \<Rightarrow> bool" where
  "tickets_pending s = (\<forall>x \<in> set (waiting s @ running s). promises s ! snd x = Pending)"

subsection \<open>A concrete setting\<close>

text \<open>Stand-ins for the libraries, a request and a world that behaves, for the
  properties to be tried on.\<close>

definition ex_url :: string where
  "ex_url = ''http://a.b/logo.jpg''"

definition ex_lib :: "string lib" where
  "ex_lib =
     \<lparr>isWebUri = (\<lambda>u. take 7 u = ''http://'' \<or> take 8 u = ''https://''),
      md5_hex = (\<lambda>u. ''0f3a''),
      path_join =
        (\<lambda>xs. case xs of [] \<Rightarrow> [] | x # ys \<Rightarrow> x @ concat (map (\<lambda>y. ''/'' @ y) ys)),
      path_dirname = (\<lambda>p. p @ ''/..''),
      getRemoteFileName = (\<lambda>u. ''logo''),
      getRemoteFileExtension = (\<lambda>u. ''.jpg''),
      fileType = (\<lambda>b. if take 3 b = ''GIF'' then Some ''gif'' else None),
      minimumBytes = 4100,
      createFileNode =
        (\<lambda>fs p. case fs p of None \<Rightarrow> Inl (IOError ''ENOENT'') | Some b \<Rightarrow> Inr p)\<rparr>"

definition ex_payload :: payload where
  "ex_payload =
     \<lparr>url = Some ex_url, store = Store ''/site'', cache = Cache,
      createNode = KFunction, createNodeId = KFunction, auth = AuthUndefined,
      ext = Some ''.png''\<rparr>"

definition ex_effects :: "stream_outcome \<Rightarrow> effects" where
  "ex_effects so =
     \<lparr>ensureDir_error = None, cache_get_error = None, stream = so,
      cache_set_error = None, readChunk_error = None, move_error = None,
      remove_error = None, createNode_error = None\<rparr>"

definition ex_world :: "string world" where
  "ex_world =
     \<lparr>files = Map.empty, dirs = {},
      hcache = [cacheId ex_url \<mapsto> [(''etag'', ''v1'')]],
      created = [], requests = [], reads = []\<rparr>"

text \<open>A world that answers 200 with a GIF, and one that answers 304.\<close>

definition ex_200 :: effects where
  "ex_200 = ex_effects (Response 200 [(''etag'', ''v2'')] ''GIF89a'')"

definition ex_304 :: effects where
  "ex_304 = ex_effects (Response 304 [(''etag'', ''v2'')] [])"

text \<open>A disk that holds a file at the final path of the example, from an earlier
  fetch.\<close>

definition ex_stale :: "string world" where
  "ex_stale =
     ex_world\<lparr>files := [''/site/.cache/gatsby-source-filesystem/0f3a/logo.png'' \<mapsto> ''old'']\<rparr>"

text \<open>The request with a user name and no password.\<close>

definition ex_user_only :: payload where
  "ex_user_only = ex_payload\<lparr>auth := Auth \<lparr>htaccess_user = Some ''user'', htaccess_pass = None\<rparr>\<rparr>"

text \<open>The example request submitted and started, and then finished by a download
  that completes with status 200.\<close>

definition ex_started :: "string system" where
  "ex_started = run ex_lib init [Submit ex_payload, Start]"

definition ex_done :: "string system" where
  "ex_done = run ex_lib ex_started [Finish 0 ex_200]"

text \<open>The task the entry point pushes for the example request.\<close>

definition ex_task :: payload where
  "ex_task = ex_payload\<lparr>auth := Auth \<lparr>htaccess_user = None, htaccess_pass = None\<rparr>\<rparr>"

text \<open>The request for the url \<open>constructor\<close>.\<close>

definition ex_constructor :: payload where
  "ex_constructor = ex_payload\<lparr>url := Some ''constructor''\<rparr>"

text \<open>A world in which the cache directory cannot be made.\<close>

definition ex_no_dir :: effects where
  "ex_no_dir = (ex_effects (Response 200 [] []))\<lparr>ensureDir_error := Some (IOError ''EACCES'')\<rparr>"

section \<open>Properties\<close>

subsection \<open>Sequencing\<close>

lemma seq_Inr: "m w = (Inr a, w1) \<Longrightarrow> seq m f w = f a w1"
  by (simp add: seq_def)

lemma seq_post:
  assumes "\<And>w. g (snd (m w)) = h (g w)" and "\<And>a w. g (snd (f a w)) = g w"
  shows "g (snd (seq m f w)) = h (g w)"
proof (cases "m w")
  case (Pair r w1)
  then have "g w1 = h (g w)" using assms(1) [of w] by simp
  with Pair show ?thesis using assms(2) by (cases r) (simp_all add: seq_def)
qed

lemma seq_keeps:
  assumes "\<And>w. g (snd (m w)) = g w" and "\<And>a w. g (snd (f a w)) = g w"
  shows "g (snd (seq m f w)) = g w"
  using seq_post [where h = "\<lambda>x. x" and g = g, OF assms] .

lemma snd_try_or_null: "snd (try_or_null m w) = snd (m w)"
  by (simp add: try_or_null_def split: prod.splits sum.splits)

lemma fst_try_or_null:
  "fst (try_or_null m w) = (case fst (m w) of Inl e \<Rightarrow> Inr Null | Inr n \<Rightarrow> Inr (NodeValue n))"
  by (simp add: try_or_null_def split: prod.splits sum.splits)

subsection \<open>What each call leaves alone\<close>

lemma hcache_guess_ext: "hcache (snd (guess_ext L E p e w)) = hcache w"
  by (simp add: guess_ext_def seq_def return_def readChunk_sync_def split: option.splits)

lemma requests_guess_ext: "requests (snd (guess_ext L E p e w)) = requests w"
  by (simp add: guess_ext_def seq_def return_def readChunk_sync_def split: option.splits)

lemma files_guess_ext: "files (snd (guess_ext L E p e w)) = files w"
  by (simp add: guess_ext_def seq_def return_def readChunk_sync_def split: option.splits)

lemma reads_guess_ext:
  "reads (snd (guess_ext L E p e w)) = (if e = [] then reads w @ [p] else reads w)"
  by (simp add: guess_ext_def seq_def return_def readChunk_sync_def split: option.splits)

lemma hcache_move_or_remove:
  "hcache (snd ((if c then fs_move L E a b else fs_remove E a) w)) = hcache w"
  by (simp add: fs_move_def fs_remove_def split: option.splits)

lemma requests_move_or_remove:
  "requests (snd ((if c then fs_move L E a b else fs_remove E a) w)) = requests w"
  by (simp add: fs_move_def fs_remove_def split: option.splits)

lemma reads_move_or_remove:
  "reads (snd ((if c then fs_move L E a b else fs_remove E a) w)) = reads w"
  by (simp add: fs_move_def fs_remove_def split: option.splits)

lemma snd_call_createFileNode: "snd (call_createFileNode L p w) = w"
  by (simp add: call_createFileNode_def)

lemma hcache_createNode: "hcache (snd (call_createNode E f n w)) = hcache w"
  by (simp add: call_createNode_def split: option.splits)

lemma requests_createNode: "requests (snd (call_createNode E f n w)) = requests w"
  by (simp add: call_createNode_def split: option.splits)

lemma files_createNode: "files (snd (call_createNode E f n w)) = files w"
  by (simp add: call_createNode_def split: option.splits)

lemma reads_createNode: "reads (snd (call_createNode E f n w)) = reads w"
  by (simp add: call_createNode_def split: option.splits)

lemma snd_return: "snd (return a w) = w"
  by (simp add: return_def)

lemma hcache_materialise: "hcache (snd (materialise L E t u d e resp w)) = hcache w"
  unfolding materialise_def
  by (intro seq_keeps [where g = hcache] hcache_guess_ext hcache_move_or_remove
      hcache_createNode arg_cong [where f = hcache] snd_call_createFileNode snd_return)

lemma requests_materialise: "requests (snd (materialise L E t u d e resp w)) = requests w"
  unfolding materialise_def
  by (intro seq_keeps [where g = requests] requests_guess_ext requests_move_or_remove
      requests_createNode arg_cong [where f = requests] snd_call_createFileNode snd_return)

lemma reads_materialise:
  "reads (snd (materialise L E t u d e resp w)) =
     (if e = [] then reads w @ [tmpFilename L d u e] else reads w)"
  unfolding materialise_def
  by (intro seq_post [where g = reads and h = "\<lambda>r. if e = [] then r @ [tmpFilename L d u e] else r"]
      seq_keeps [where g = reads] reads_guess_ext reads_move_or_remove
      reads_createNode arg_cong [where f = reads] snd_call_createFileNode snd_return)

subsection \<open>The download and what follows it\<close>

lemma requests_requestRemoteNode:
  "requests (snd (requestRemoteNode so u hs tmp w)) = requests w @ [GotStream u hs 30000 5]"
  by (simp add: requestRemoteNode_def split: stream_outcome.splits)

lemma requests_cache_set: "requests (snd (cache_set E k v w)) = requests w"
  by (simp add: cache_set_def split: option.splits)

lemma requests_fetch_block:
  "requests (snd (fetch_block L E t u d rh e w)) = requests w @ [GotStream u rh 30000 5]"
  unfolding fetch_block_def
  by (intro seq_post [where g = requests and h = "\<lambda>r. r @ [GotStream u rh 30000 5]"]
      seq_keeps [where g = requests] requests_requestRemoteNode requests_cache_set
      requests_materialise)

lemma processRemoteNode_setup:
  assumes "reaches_fetch E t d u"
  shows "processRemoteNode L E t w =
     try_or_null
       (fetch_block L E t u d
          (request_headers (default_auth (auth t)) (hcache w (cacheId u)))
          (first_ext L (ext t) u))
       (w\<lparr>dirs := insert (pluginCacheDir L d) (dirs w)\<rparr>)"
  using assms
  by (simp add: reaches_fetch_def processRemoteNode_def seq_def fs_ensureDir_def cache_get_def)

lemma fetch_block_response:
  assumes "stream E = Response st hs body" "cache_set_error E = None"
  shows "fetch_block L E t u d rh e w =
     materialise L E t u d e \<lparr>statusCode = st, headers = hs\<rparr>
       (w\<lparr>requests := requests w @ [GotStream u rh 30000 5],
          files := (files w)(tmpFilename L d u e \<mapsto> body),
          hcache := (hcache w)(cacheId u \<mapsto> hs)\<rparr>)"
  using assms by (simp add: fetch_block_def seq_def requestRemoteNode_def cache_set_def)

lemma fetch_block_ResponseError:
  assumes "stream E = ResponseError err b"
  shows "fetch_block L E t u d rh e w =
     (Inl err, w\<lparr>requests := requests w @ [GotStream u rh 30000 5],
                 files := (files w)(tmpFilename L d u e := None)\<rparr>)"
  using assms by (simp add: fetch_block_def seq_def requestRemoteNode_def)

lemma fetch_block_WriteError:
  assumes "stream E = WriteError err (Some b)"
  shows "fetch_block L E t u d rh e w =
     (Inl err, w\<lparr>requests := requests w @ [GotStream u rh 30000 5],
                 files := (files w)(tmpFilename L d u e \<mapsto> b)\<rparr>)"
  using assms by (simp add: fetch_block_def seq_def requestRemoteNode_def)

lemma hcache_after_response:
  assumes "reaches_fetch E t d u" "stream E = Response st hs body" "cache_set_error E = None"
  shows "hcache (snd (processRemoteNode L E t w)) (cacheId u) = Some hs"
  by (simp add: processRemoteNode_setup [OF assms(1)] snd_try_or_null
      fetch_block_response [OF assms(2,3)] hcache_materialise)

lemma guess_ext_value:
  assumes "e = [] \<longrightarrow> readChunk_error E = None" "files w p = Some body"
  shows "guess_ext L E p e w =
     (Inr (if e = []
           then (case fileType L (take (minimumBytes L) body) of
                   Some ft \<Rightarrow> ''.'' @ ft | None \<Rightarrow> [])
           else e),
      w\<lparr>reads := (if e = [] then reads w @ [p] else reads w)\<rparr>)"
  using assms
  by (cases "e = []") (simp_all add: guess_ext_def seq_def return_def readChunk_sync_def)

lemma files_materialise:
  assumes "e = [] \<longrightarrow> readChunk_error E = None"
    and "statusCode resp = 200 \<longrightarrow> move_error E = None"
    and "statusCode resp \<noteq> 200 \<longrightarrow> remove_error E = None"
    and "files w (tmpFilename L d u e) = Some body"
    and "e2 = (if e = []
           then (case fileType L (take (minimumBytes L) body) of
                   Some ft \<Rightarrow> ''.'' @ ft | None \<Rightarrow> [])
           else e)"
  shows "files (snd (materialise L E t u d e resp w)) =
     (if statusCode resp = 200
      then (if tmpFilename L d u e = filename L d u e2 then files w
            else ((files w)(filename L d u e2 \<mapsto> body))(tmpFilename L d u e := None))
      else (files w)(tmpFilename L d u e := None))"
proof -
  let ?w1 = "w\<lparr>reads := (if e = [] then reads w @ [tmpFilename L d u e] else reads w)\<rparr>"
  let ?fs = "(if statusCode resp = 200
      then (if tmpFilename L d u e = filename L d u e2 then files w
            else ((files w)(filename L d u e2 \<mapsto> body))(tmpFilename L d u e := None))
      else (files w)(tmpFilename L d u e := None))"
  have g: "guess_ext L E (tmpFilename L d u e) e w = (Inr e2, ?w1)"
    using guess_ext_value [OF assms(1,4)] assms(5) by simp
  let ?m = "if statusCode resp = 200
          then fs_move L E (tmpFilename L d u e) (filename L d u e2)
          else fs_remove E (tmpFilename L d u e)"
  define w2 where "w2 = snd (?m ?w1)"
  have m: "?m ?w1 = (Inr (), w2)"
    using assms(2,3,4)
    by (cases "statusCode resp = 200") (simp_all add: w2_def fs_move_def fs_remove_def)
  have f2: "files w2 = ?fs"
    using assms(2,3,4)
    by (cases "statusCode resp = 200") (simp_all add: w2_def fs_move_def fs_remove_def)
  have "files (snd (materialise L E t u d e resp w)) = files w2"
    unfolding materialise_def
    apply (subst seq_Inr, rule g)
    apply (subst seq_Inr, rule m)
    apply (intro seq_keeps [where g = files] files_createNode
        arg_cong [where f = files] snd_call_createFileNode snd_return)
    done
  with f2 show ?thesis by simp
qed

subsection \<open>One task\<close>

lemmas ex_defs = ex_url_def ex_200_def ex_304_def ex_effects_def ex_payload_def
  reaches_fetch_def

lemma ex_paths:
  "tmpFilename ex_lib ''/site'' u e = ''/site/.cache/gatsby-source-filesystem/tmp-0f3a'' @ e"
  "filename ex_lib ''/site'' u e = ''/site/.cache/gatsby-source-filesystem/0f3a/logo'' @ e"
  by (simp_all add: tmpFilename_def filename_def createFilePath_def pluginCacheDir_def
      createHash_def CACHE_DIR_def FS_PLUGIN_DIR_def ex_lib_def)

lemma ex_exts:
  "first_ext ex_lib (Some ''.png'') u = ''.png''"
  "final_ext ex_lib (Some ''.png'') u b = ''.png''"
  by (simp_all add: first_ext_def final_ext_def)

text \<open>
  C3, as amended. Whenever the download resolves with a response, whatever its
  status, the response's headers are saved in the cache under the url's key: after a
  304 just as after a 200. (The call of \<open>cache.set\<close> itself is taken to succeed.)
\<close>

theorem response_headers_saved_whatever_the_status:
  assumes "reaches_fetch E t d u" "stream E = Response st hs body" "cache_set_error E = None"
  shows "hcache (snd (processRemoteNode L E t w)) (cacheId u) = Some hs"
  using assms by (rule hcache_after_response)

theorem response_headers_saved_witness:
  "reaches_fetch ex_200 ex_payload ''/site'' ex_url \<and>
   stream ex_200 = Response 200 [(''etag'', ''v2'')] ''GIF89a'' \<and>
   cache_set_error ex_200 = None \<and>
   hcache (snd (processRemoteNode ex_lib ex_200 ex_payload ex_world)) (cacheId ex_url)
     = Some [(''etag'', ''v2'')]"
  using response_headers_saved_whatever_the_status
    [of ex_200 ex_payload "''/site''" ex_url 200 "[(''etag'', ''v2'')]" "''GIF89a''" ex_lib ex_world]
  by (simp add: ex_defs)

text \<open>The claim as it was stated fails on the example: the cache holds the etag
  \<open>v1\<close> for the url, the response is a 304 with the etag \<open>v2\<close>, and afterwards
  the cache holds \<open>v2\<close>.\<close>

theorem not_modified_response_overwrites_cached_headers:
  "hcache ex_world (cacheId ex_url) = Some [(''etag'', ''v1'')] \<and>
   stream ex_304 = Response 304 [(''etag'', ''v2'')] [] \<and>
   hcache (snd (processRemoteNode ex_lib ex_304 ex_payload ex_world)) (cacheId ex_url)
     = Some [(''etag'', ''v2'')]"
  using hcache_after_response
    [of ex_304 ex_payload "''/site''" ex_url 304 "[(''etag'', ''v2'')]" "[]" ex_lib ex_world]
  by (simp add: ex_defs ex_world_def)

text \<open>
  C4. When the file stream fails after it has written part of the body, the promise
  of \<open>requestRemoteNode\<close> is rejected and \<open>processRemoteNode\<close> returns null, but
  the temp file is still on the disk with what was written: the handler of the file
  stream's error does not remove it, and nothing later does.
\<close>

theorem write_error_leaves_temp_file:
  assumes "reaches_fetch E t d u" "stream E = WriteError err (Some b)"
  shows "fst (processRemoteNode L E t w) = Inr Null \<and>
         files (snd (processRemoteNode L E t w)) (tmpFilename L d u (first_ext L (ext t) u))
           = Some b"
  by (simp add: processRemoteNode_setup [OF assms(1)] snd_try_or_null fst_try_or_null
      fetch_block_WriteError [OF assms(2)])

theorem write_error_leaves_temp_file_witness:
  "reaches_fetch (ex_effects (WriteError (IOError ''ENOSPC'') (Some ''GIF''))) ex_payload
     ''/site'' ex_url \<and>
   fst (processRemoteNode ex_lib (ex_effects (WriteError (IOError ''ENOSPC'') (Some ''GIF'')))
          ex_payload ex_world) = Inr Null \<and>
   files (snd (processRemoteNode ex_lib
                 (ex_effects (WriteError (IOError ''ENOSPC'') (Some ''GIF''))) ex_payload
                 ex_world))
     ''/site/.cache/gatsby-source-filesystem/tmp-0f3a.png'' = Some ''GIF''"
  using write_error_leaves_temp_file
    [of "ex_effects (WriteError (IOError ''ENOSPC'') (Some ''GIF''))" ex_payload "''/site''"
        ex_url "IOError ''ENOSPC''" "''GIF''" ex_lib ex_world]
  by (simp add: ex_defs ex_paths ex_exts)

text \<open>The handler of the response stream's error does remove it.\<close>

lemma response_error_removes_temp_file:
  assumes "reaches_fetch E t d u" "stream E = ResponseError err b"
  shows "fst (processRemoteNode L E t w) = Inr Null \<and>
         files (snd (processRemoteNode L E t w)) (tmpFilename L d u (first_ext L (ext t) u))
           = None"
  by (simp add: processRemoteNode_setup [OF assms(1)] snd_try_or_null fst_try_or_null
      fetch_block_ResponseError [OF assms(2)])

lemma files_after_response:
  assumes "reaches_fetch E t d u" "stream E = Response st hs body" "cache_set_error E = None"
    and "first_ext L (ext t) u = [] \<longrightarrow> readChunk_error E = None"
    and "st = 200 \<longrightarrow> move_error E = None"
    and "st \<noteq> 200 \<longrightarrow> remove_error E = None"
  shows "files (snd (processRemoteNode L E t w)) =
     (if st = 200
      then (if tmpFilename L d u (first_ext L (ext t) u)
                 = filename L d u (final_ext L (ext t) u body)
            then (files w)(tmpFilename L d u (first_ext L (ext t) u) \<mapsto> body)
            else ((files w)(filename L d u (final_ext L (ext t) u body) \<mapsto> body))
                   (tmpFilename L d u (first_ext L (ext t) u) := None))
      else (files w)(tmpFilename L d u (first_ext L (ext t) u) := None))"
  apply (simp only: processRemoteNode_setup [OF assms(1)] snd_try_or_null
      fetch_block_response [OF assms(2,3)])
  apply (subst files_materialise [OF assms(4), where body = body
        and ?e2.0 = "final_ext L (ext t) u body"])
  using assms(5,6)
    apply (simp_all add: final_ext_def)
  done


text \<open>
  C5. For a fetch that completes with status 200 the temp file is moved to the final
  path \<open>{cacheDir}/{md5(url)}/{name}{ext}\<close>, whatever that path held before, and the
  temp file is gone; with any other status (304) the temp file is removed and the
  final path holds what it held before the fetch. The two paths are taken to differ,
  and the disk calls on the way to succeed.
\<close>

theorem temp_file_moved_on_200_removed_otherwise:
  assumes "reaches_fetch E t d u" "stream E = Response st hs body" "cache_set_error E = None"
    and "first_ext L (ext t) u = [] \<longrightarrow> readChunk_error E = None"
    and "st = 200 \<longrightarrow> move_error E = None"
    and "st \<noteq> 200 \<longrightarrow> remove_error E = None"
    and "tmpFilename L d u (first_ext L (ext t) u) \<noteq> filename L d u (final_ext L (ext t) u body)"
  shows "(st = 200 \<longrightarrow>
            files (snd (processRemoteNode L E t w)) (filename L d u (final_ext L (ext t) u body))
              = Some body \<and>
            files (snd (processRemoteNode L E t w)) (tmpFilename L d u (first_ext L (ext t) u))
              = None) \<and>
         (st \<noteq> 200 \<longrightarrow>
            files (snd (processRemoteNode L E t w)) (tmpFilename L d u (first_ext L (ext t) u))
              = None \<and>
            files (snd (processRemoteNode L E t w)) (filename L d u (final_ext L (ext t) u body))
              = files w (filename L d u (final_ext L (ext t) u body)))"
  using assms(7) by (simp add: files_after_response [OF assms(1-6)])

theorem temp_file_moved_or_removed_witness:
  "reaches_fetch ex_200 ex_payload ''/site'' ex_url \<and>
   stream ex_200 = Response 200 [(''etag'', ''v2'')] ''GIF89a'' \<and>
   cache_set_error ex_200 = None \<and> readChunk_error ex_200 = None \<and>
   move_error ex_200 = None \<and> remove_error ex_200 = None \<and>
   tmpFilename ex_lib ''/site'' ex_url ''.png'' \<noteq> filename ex_lib ''/site'' ex_url ''.png'' \<and>
   files ex_stale ''/site/.cache/gatsby-source-filesystem/0f3a/logo.png'' = Some ''old'' \<and>
   files (snd (processRemoteNode ex_lib ex_200 ex_payload ex_stale))
     ''/site/.cache/gatsby-source-filesystem/0f3a/logo.png'' = Some ''GIF89a'' \<and>
   files (snd (processRemoteNode ex_lib ex_200 ex_payload ex_stale))
     ''/site/.cache/gatsby-source-filesystem/tmp-0f3a.png'' = None \<and>
   reaches_fetch ex_304 ex_payload ''/site'' ex_url \<and>
   stream ex_304 = Response 304 [(''etag'', ''v2'')] [] \<and>
   files (snd (processRemoteNode ex_lib ex_304 ex_payload ex_stale))
     ''/site/.cache/gatsby-source-filesystem/0f3a/logo.png'' = Some ''old'' \<and>
   files (snd (processRemoteNode ex_lib ex_304 ex_payload ex_stale))
     ''/site/.cache/gatsby-source-filesystem/tmp-0f3a.png'' = None"
  using temp_file_moved_on_200_removed_otherwise
    [of ex_200 ex_payload "''/site''" ex_url 200 "[(''etag'', ''v2'')]" "''GIF89a''" ex_lib ex_stale]
    temp_file_moved_on_200_removed_otherwise
    [of ex_304 ex_payload "''/site''" ex_url 304 "[(''etag'', ''v2'')]" "[]" ex_lib ex_stale]
  by (simp add: ex_defs ex_paths ex_exts ex_stale_def)

lemma ex_lib_simps:
  "getRemoteFileExtension ex_lib u = ''.jpg''"
  "fileType ex_lib (take (minimumBytes ex_lib) ''GIF89a'') = Some ''gif''"
  "isWebUri ex_lib ''http://a.b/logo.jpg''"
  by (simp_all add: ex_lib_def)

lemma ex_world_simps:
  "reads ex_world = []" "requests ex_world = []" "files ex_world p = None"
  "hcache ex_world (cacheId ''http://a.b/logo.jpg'') = Some [(''etag'', ''v1'')]"
  by (simp_all add: ex_world_def ex_url_def)

lemma reads_after_response:
  assumes "reaches_fetch E t d u" "stream E = Response st hs body" "cache_set_error E = None"
  shows "reads (snd (processRemoteNode L E t w)) =
     (if first_ext L (ext t) u = []
      then reads w @ [tmpFilename L d u (first_ext L (ext t) u)]
      else reads w)"
  by (simp add: processRemoteNode_setup [OF assms(1)] snd_try_or_null
      fetch_block_response [OF assms(2,3)] reads_materialise)

text \<open>
  C6. The extension of the final file is resolved in order. An extension the caller
  gives (a non-empty string) is used, whatever the url's own extension and the
  content are, and the temp file is not read. Without one, the extension of the url is
  used if it is not empty, again without reading the temp file. Only when that is
  empty too are the first bytes of the temp file read and their signature used
  (no extension if it is not recognised). Stated for a download that completes with
  status 200, on the file the move leaves at the final path.
\<close>

theorem extension_resolved_in_order:
  assumes "reaches_fetch E t d u" "stream E = Response 200 hs body" "cache_set_error E = None"
    and "move_error E = None"
    and "first_ext L (ext t) u = [] \<longrightarrow> readChunk_error E = None"
  shows "(ext t = Some x \<and> x \<noteq> [] \<longrightarrow>
            files (snd (processRemoteNode L E t w)) (filename L d u x) = Some body \<and>
            reads (snd (processRemoteNode L E t w)) = reads w) \<and>
         (\<not> truthy (ext t) \<and> getRemoteFileExtension L u \<noteq> [] \<longrightarrow>
            files (snd (processRemoteNode L E t w))
              (filename L d u (getRemoteFileExtension L u)) = Some body \<and>
            reads (snd (processRemoteNode L E t w)) = reads w) \<and>
         (\<not> truthy (ext t) \<and> getRemoteFileExtension L u = [] \<longrightarrow>
            files (snd (processRemoteNode L E t w))
              (filename L d u
                 (case fileType L (take (minimumBytes L) body) of
                    Some ft \<Rightarrow> ''.'' @ ft
                  | None \<Rightarrow> [])) = Some body \<and>
            reads (snd (processRemoteNode L E t w)) = reads w @ [tmpFilename L d u []])"
proof -
  let ?w' = "snd (processRemoteNode L E t w)"
  have f: "files ?w' (filename L d u (final_ext L (ext t) u body)) = Some body"
    using assms(4,5) by (simp add: files_after_response [OF assms(1-3)])
  have r: "reads ?w' =
     (if first_ext L (ext t) u = []
      then reads w @ [tmpFilename L d u (first_ext L (ext t) u)]
      else reads w)"
    by (rule reads_after_response [OF assms(1-3)])
  have 1: "first_ext L (ext t) u = x \<and> final_ext L (ext t) u body = x"
    if "ext t = Some x" "x \<noteq> []"
    using that by (simp add: first_ext_def final_ext_def)
  have 2: "first_ext L (ext t) u = getRemoteFileExtension L u"
    if "\<not> truthy (ext t)"
    using that by (cases "ext t") (simp_all add: first_ext_def)
  have 3: "final_ext L (ext t) u body = getRemoteFileExtension L u"
    if "\<not> truthy (ext t)" "getRemoteFileExtension L u \<noteq> []"
    using that 2 by (simp add: final_ext_def)
  have 4: "final_ext L (ext t) u body =
      (case fileType L (take (minimumBytes L) body) of Some ft \<Rightarrow> ''.'' @ ft | None \<Rightarrow> [])"
    if "\<not> truthy (ext t)" "getRemoteFileExtension L u = []"
    using that 2 by (simp add: final_ext_def)
  show ?thesis
    using f r 1 2 3 4 by (auto simp del: truthy.simps)
qed

theorem extension_resolved_in_order_witness:
  "reaches_fetch ex_200 ex_payload ''/site'' ex_url \<and>
   stream ex_200 = Response 200 [(''etag'', ''v2'')] ''GIF89a'' \<and>
   cache_set_error ex_200 = None \<and> move_error ex_200 = None \<and>
   ext ex_payload = Some ''.png'' \<and>
   getRemoteFileExtension ex_lib ex_url = ''.jpg'' \<and>
   fileType ex_lib (take (minimumBytes ex_lib) ''GIF89a'') = Some ''gif'' \<and>
   files (snd (processRemoteNode ex_lib ex_200 ex_payload ex_world))
     ''/site/.cache/gatsby-source-filesystem/0f3a/logo.png'' = Some ''GIF89a'' \<and>
   reads (snd (processRemoteNode ex_lib ex_200 ex_payload ex_world)) = []"
  using extension_resolved_in_order
    [of ex_200 ex_payload "''/site''" ex_url "[(''etag'', ''v2'')]" "''GIF89a''" ex_lib
        "''.png''" ex_world]
  by (simp add: ex_defs ex_paths ex_exts ex_lib_simps ex_world_simps)

lemma requests_processRemoteNode:
  assumes "reaches_fetch E t d u"
  shows "requests (snd (processRemoteNode L E t w)) =
     requests w @
       [GotStream u (request_headers (default_auth (auth t)) (hcache w (cacheId u))) 30000 5]"
  by (simp add: processRemoteNode_setup [OF assms] snd_try_or_null requests_fetch_block)

text \<open>
  C10. When the task gets to its download, the request goes out once, with the
  \<open>auth\<close> option made from the credentials: a user name without a password gives
  \<open>user:undefined\<close>, a password without a user name gives \<open>undefined:pass\<close>, and
  the option is left out exactly when neither credential is a non-empty string.
\<close>

theorem auth_header_with_one_credential:
  assumes "reaches_fetch E t d u" "auth t = Auth c"
  shows "requests (snd (processRemoteNode L E t w)) =
           requests w @ [GotStream u (request_headers (Auth c) (hcache w (cacheId u))) 30000 5] \<and>
         (htaccess_user c = Some usr \<and> usr \<noteq> [] \<and> htaccess_pass c = None \<longrightarrow>
            h_auth (request_headers (Auth c) ch) = Some (usr @ '':undefined'')) \<and>
         (htaccess_pass c = Some pw \<and> pw \<noteq> [] \<and> htaccess_user c = None \<longrightarrow>
            h_auth (request_headers (Auth c) ch) = Some (''undefined:'' @ pw)) \<and>
         (h_auth (request_headers (Auth c) ch) = None \<longleftrightarrow>
            \<not> truthy (htaccess_user c) \<and> \<not> truthy (htaccess_pass c))"
  using assms(2)
  by (auto simp add: requests_processRemoteNode [OF assms(1)] request_headers_def
      auth_header_def)

theorem auth_header_with_one_credential_witness:
  "reaches_fetch ex_200 ex_user_only ''/site'' ex_url \<and>
   auth ex_user_only = Auth \<lparr>htaccess_user = Some ''user'', htaccess_pass = None\<rparr> \<and>
   requests (snd (processRemoteNode ex_lib ex_200 ex_user_only ex_world)) =
     [GotStream ex_url \<lparr>h_auth = Some ''user:undefined'', h_if_none_match = Some ''v1''\<rparr>
        30000 5]"
  using auth_header_with_one_credential
    [of ex_200 ex_user_only "''/site''" ex_url
        "\<lparr>htaccess_user = Some ''user'', htaccess_pass = None\<rparr>" ex_lib ex_world
        "''user''" "hcache ex_world (cacheId ex_url)"]
  by (simp add: ex_defs ex_user_only_def ex_world_simps request_headers_def etag_header_def
      auth_header_def)

subsection \<open>Calls of the entry point\<close>

lemma submit_throws:
  "\<not> valid_config r \<Longrightarrow> \<exists>e. createRemoteFileNode L r s = Inl e"
  by (auto simp add: createRemoteFileNode_def valid_config_def)

lemma submit_hit:
  assumes "valid_config r" "processingCache_get (processingCache s) (url r) = Some v"
  shows "createRemoteFileNode L r s = Inr (v, s)"
  using assms by (simp add: createRemoteFileNode_def valid_config_def)

lemma submit_existing:
  assumes "valid_config r" "url r = Some u" "processingCache s u = Some p"
  shows "createRemoteFileNode L r s = Inr (Promise p, s)"
  using assms by (simp add: submit_hit processingCache_get_def)

lemma submit_invalid:
  assumes "valid_config r" "processingCache_get (processingCache s) (url r) = None"
    and "\<not> truthy (url r) \<or> \<not> isWebUri L (render (url r))"
  shows "createRemoteFileNode L r s =
     Inr (Promise (length (promises s)), s\<lparr>promises := promises s @ [Resolved Undefined]\<rparr>)"
  using assms by (cases "url r") (auto simp add: createRemoteFileNode_def valid_config_def)

lemma submit_new:
  assumes "valid_config r" "processingCache_get (processingCache s) (url r) = None"
    and "url r = Some u" "u \<noteq> []" "isWebUri L u"
  shows "createRemoteFileNode L r s =
     Inr (Promise (length (promises s)),
          s\<lparr>promises := promises s @ [Pending],
            waiting := waiting s @ [(r\<lparr>auth := default_auth (auth r)\<rparr>, length (promises s))],
            processingCache := (processingCache s)(u \<mapsto> length (promises s))\<rparr>)"
  using assms
  by (simp add: createRemoteFileNode_def valid_config_def pushTask_def queue_push_def)

text \<open>Every call that returns is one of three: the url is found in the index, it is
  not a web uri, or it is new.\<close>

lemma submit_cases:
  assumes "createRemoteFileNode L r s = Inr (v, s')"
  obtains
    (hit) "valid_config r" "processingCache_get (processingCache s) (url r) = Some v" "s' = s"
  | (invalid) "valid_config r" "processingCache_get (processingCache s) (url r) = None"
      "\<not> truthy (url r) \<or> \<not> isWebUri L (render (url r))"
      "v = Promise (length (promises s))"
      "s' = s\<lparr>promises := promises s @ [Resolved Undefined]\<rparr>"
  | (new) u where "valid_config r" "processingCache_get (processingCache s) (url r) = None"
      "url r = Some u" "u \<noteq> []" "isWebUri L u"
      "v = Promise (length (promises s))"
      "s' = s\<lparr>promises := promises s @ [Pending],
            waiting := waiting s @ [(r\<lparr>auth := default_auth (auth r)\<rparr>, length (promises s))],
            processingCache := (processingCache s)(u \<mapsto> length (promises s))\<rparr>"
proof -
  have vc: "valid_config r"
  proof (rule ccontr)
    assume "\<not> valid_config r"
    then obtain e where "createRemoteFileNode L r s = Inl e"
      using submit_throws by blast
    with assms show False by simp
  qed
  show thesis
  proof (cases "processingCache_get (processingCache s) (url r)")
    case (Some v')
    have "createRemoteFileNode L r s = Inr (v', s)"
      by (rule submit_hit [OF vc Some])
    with assms have "v' = v" "s' = s" by simp_all
    with vc Some show ?thesis by (intro hit) simp_all
  next
    case None
    show ?thesis
    proof (cases "\<not> truthy (url r) \<or> \<not> isWebUri L (render (url r))")
      case True
      have "createRemoteFileNode L r s =
          Inr (Promise (length (promises s)), s\<lparr>promises := promises s @ [Resolved Undefined]\<rparr>)"
        by (rule submit_invalid [OF vc None True])
      with assms have "v = Promise (length (promises s))"
        "s' = s\<lparr>promises := promises s @ [Resolved Undefined]\<rparr>" by simp_all
      with vc None True show ?thesis by (intro invalid)
    next
      case False
      then obtain u where u: "url r = Some u" "u \<noteq> []" "isWebUri L u"
        by (cases "url r") auto
      have "createRemoteFileNode L r s =
          Inr (Promise (length (promises s)),
            s\<lparr>promises := promises s @ [Pending],
              waiting := waiting s @ [(r\<lparr>auth := default_auth (auth r)\<rparr>, length (promises s))],
              processingCache := (processingCache s)(u \<mapsto> length (promises s))\<rparr>)"
        by (rule submit_new [OF vc None u])
      with assms have "v = Promise (length (promises s))"
        "s' = s\<lparr>promises := promises s @ [Pending],
              waiting := waiting s @ [(r\<lparr>auth := default_auth (auth r)\<rparr>, length (promises s))],
              processingCache := (processingCache s)(u \<mapsto> length (promises s))\<rparr>"
        by simp_all
      with vc None u show ?thesis by (intro new)
    qed
  qed
qed

lemma processingCache_get_None:
  "processingCache_get pc (Some u) = None \<Longrightarrow> pc u = None"
  by (simp add: processingCache_get_def split: option.splits)

subsection \<open>Steps of the queue\<close>

lemma processRemoteNode_no_fetch:
  assumes "\<not> (\<exists>d u. reaches_fetch E t d u)"
  shows "requests (snd (processRemoteNode L E t w)) = requests w"
  using assms
  by (auto simp add: reaches_fetch_def processRemoteNode_def seq_def throw_def fs_ensureDir_def
      cache_get_def split: js_store.splits option.splits js_cache.splits)

lemma fetches_processRemoteNode:
  "fetches u (snd (processRemoteNode L E t w))
     \<le> fetches u w + (if url t = Some u then 1 else 0)"
proof (cases "\<exists>d v. reaches_fetch E t d v")
  case True
  then obtain d v where r: "reaches_fetch E t d v" by blast
  then have "url t = Some v" by (simp add: reaches_fetch_def)
  then show ?thesis
    by (simp add: fetches_def requests_processRemoteNode [OF r])
next
  case False
  then show ?thesis by (simp add: fetches_def processRemoteNode_no_fetch)
qed

lemma snd_pushToQueue: "snd (pushToQueue L E t w) = snd (processRemoteNode L E t w)"
  by (simp add: pushToQueue_def split: prod.splits sum.splits)

lemma fst_pushToQueue:
  "fst (pushToQueue L E t w) =
     (None, case fst (processRemoteNode L E t w) of Inr v \<Rightarrow> v | Inl e \<Rightarrow> ErrorValue e)"
  by (simp add: pushToQueue_def split: prod.splits sum.splits)

lemma queue_finish_absent:
  "find (\<lambda>x. snd x = p) (running s) = None \<Longrightarrow> queue_finish L p E s = s"
  by (simp add: queue_finish_def)

lemma queue_finish_present:
  assumes "find (\<lambda>x. snd x = p) (running s) = Some x"
  shows "queue_finish L p E s =
     s\<lparr>running := filter (\<lambda>y. snd y \<noteq> p) (running s),
       promises :=
         resolve p (case fst (processRemoteNode L E (fst x) (world s)) of
                      Inr v \<Rightarrow> v | Inl e \<Rightarrow> ErrorValue e) (promises s),
       world := snd (processRemoteNode L E (fst x) (world s))\<rparr>"
proof -
  obtain cb w' where pq: "pushToQueue L E (fst x) (world s) = (cb, w')"
    by (cases "pushToQueue L E (fst x) (world s)")
  have "cb = fst (pushToQueue L E (fst x) (world s))" "w' = snd (pushToQueue L E (fst x) (world s))"
    using pq by simp_all
  then have "ticket_value cb =
      (case fst (processRemoteNode L E (fst x) (world s)) of Inr v \<Rightarrow> v | Inl e \<Rightarrow> ErrorValue e)"
    and "w' = snd (processRemoteNode L E (fst x) (world s))"
    by (simp_all add: fst_pushToQueue snd_pushToQueue ticket_value_def)
  then show ?thesis using assms pq by (simp add: queue_finish_def)
qed

lemma length_resolve: "length (resolve p v ps) = length ps"
  by (simp add: resolve_def)

lemma resolve_other: "q \<noteq> p \<Longrightarrow> resolve p v ps ! q = ps ! q"
  by (simp add: resolve_def)

lemma resolve_pending:
  "p < length ps \<Longrightarrow> ps ! p = Pending \<Longrightarrow> resolve p v ps ! p = Resolved v"
  by (simp add: resolve_def)

lemma queue_finish_cases:
  obtains (absent) "queue_finish L p E s = s"
  | (present) x where "x \<in> set (running s)" "snd x = p"
      "queue_finish L p E s =
         s\<lparr>running := filter (\<lambda>y. snd y \<noteq> p) (running s),
           promises :=
             resolve p (case fst (processRemoteNode L E (fst x) (world s)) of
                          Inr v \<Rightarrow> v | Inl e \<Rightarrow> ErrorValue e) (promises s),
           world := snd (processRemoteNode L E (fst x) (world s))\<rparr>"
proof (cases "find (\<lambda>x. snd x = p) (running s)")
  case None
  then show ?thesis using absent by (simp add: queue_finish_absent)
next
  case (Some x)
  then have "x \<in> set (running s)" "snd x = p"
    by (auto simp add: find_Some_iff)
  then show ?thesis using present queue_finish_present [OF Some] by blast
qed

lemma queue_start_cases:
  obtains (idle) "queue_start s = s"
  | (started) x xs where "waiting s = x # xs" "length (running s) < concurrent"
      "queue_start s = s\<lparr>waiting := xs, running := running s @ [x]\<rparr>"
  by (cases "waiting s"; cases "length (running s) < concurrent")
    (simp_all add: queue_start_def)

subsection \<open>What every step keeps\<close>

lemma running_bound_step:
  assumes "length (running s) \<le> concurrent"
  shows "length (running (step L e s)) \<le> concurrent"
proof (cases e)
  case (Submit r)
  show ?thesis
  proof (cases "createRemoteFileNode L r s")
    case (Inl a)
    with Submit assms show ?thesis by simp
  next
    case (Inr b)
    then obtain v s' where b: "createRemoteFileNode L r s = Inr (v, s')" by (cases b) auto
    then have "running s' = running s" by (cases rule: submit_cases) simp_all
    with Submit b assms show ?thesis by simp
  qed
next
  case Start
  show ?thesis
    using assms Start by (cases s rule: queue_start_cases) auto
next
  case (Finish p E)
  show ?thesis
  proof (cases L p E s rule: queue_finish_cases)
    case absent
    with Finish assms show ?thesis by simp
  next
    case (present x)
    have "length (filter (\<lambda>y. snd y \<noteq> p) (running s)) \<le> concurrent"
      using assms by (rule le_trans [OF length_filter_le])
    with Finish present(3) show ?thesis by simp
  qed
qed

lemma entry_kept_step:
  assumes "processingCache s u = Some p"
  shows "processingCache (step L e s) u = Some p"
proof (cases e)
  case (Submit r)
  show ?thesis
  proof (cases "createRemoteFileNode L r s")
    case (Inl a)
    with Submit assms show ?thesis by simp
  next
    case (Inr b)
    then obtain v s' where b: "createRemoteFileNode L r s = Inr (v, s')" by (cases b) auto
    then have "processingCache s' u = Some p"
    proof (cases rule: submit_cases)
      case (new u')
      then have "processingCache s u' = None" by (simp add: processingCache_get_None)
      with assms have "u' \<noteq> u" by auto
      with new assms show ?thesis by simp
    qed (simp_all add: assms)
    with Submit b show ?thesis by simp
  qed
next
  case Start
  show ?thesis
    using assms Start by (cases s rule: queue_start_cases) auto
next
  case (Finish q E)
  show ?thesis
    using assms Finish by (cases L q E s rule: queue_finish_cases) auto
qed

lemma running_bound_run:
  "length (running s) \<le> concurrent \<Longrightarrow> length (running (run L s es)) \<le> concurrent"
  by (induction es arbitrary: s) (simp_all add: running_bound_step)

lemma entry_kept_run:
  "processingCache s u = Some p \<Longrightarrow> processingCache (run L s es) u = Some p"
  by (induction es arbitrary: s) (simp_all add: entry_kept_step)

text \<open>What one event does to the state, in five cases.\<close>

lemma step_cases:
  obtains (same) "step L e s = s"
  | (invalid) "step L e s = s\<lparr>promises := promises s @ [Resolved Undefined]\<rparr>"
  | (new) r u where "e = Submit r" "valid_config r" "url r = Some u" "u \<noteq> []" "isWebUri L u"
      "processingCache s u = None"
      "step L e s =
         s\<lparr>promises := promises s @ [Pending],
           waiting := waiting s @ [(r\<lparr>auth := default_auth (auth r)\<rparr>, length (promises s))],
           processingCache := (processingCache s)(u \<mapsto> length (promises s))\<rparr>"
  | (started) x xs where "waiting s = x # xs" "length (running s) < concurrent"
      "step L e s = s\<lparr>waiting := xs, running := running s @ [x]\<rparr>"
  | (finished) p E x where "x \<in> set (running s)" "snd x = p"
      "step L e s =
         s\<lparr>running := filter (\<lambda>y. snd y \<noteq> p) (running s),
           promises :=
             resolve p (case fst (processRemoteNode L E (fst x) (world s)) of
                          Inr v \<Rightarrow> v | Inl e \<Rightarrow> ErrorValue e) (promises s),
           world := snd (processRemoteNode L E (fst x) (world s))\<rparr>"
proof (cases e)
  case (Submit r)
  show ?thesis
  proof (cases "createRemoteFileNode L r s")
    case (Inl a)
    with Submit same show ?thesis by simp
  next
    case (Inr b)
    then obtain v s' where b: "createRemoteFileNode L r s = Inr (v, s')" by (cases b) auto
    then have st: "step L e s = s'" using Submit by simp
    from b show ?thesis
    proof (cases rule: submit_cases)
      case hit
      with st same show ?thesis by simp
    next
      case invalid
      with st show ?thesis using that(2) by simp
    next
      case (new u)
      then have "processingCache s u = None" by (simp add: processingCache_get_None)
      with new st Submit show ?thesis using that(3) [of r u] by simp
    qed
  qed
next
  case Start
  show ?thesis
  proof (cases s rule: queue_start_cases)
    case idle
    with Start same show ?thesis by simp
  next
    case (started x xs)
    with Start show ?thesis using that(4) [of x xs] by simp
  qed
next
  case (Finish p E)
  show ?thesis
  proof (cases L p E s rule: queue_finish_cases)
    case absent
    with Finish same show ?thesis by simp
  next
    case (present x)
    with Finish show ?thesis using that(5) [of x p E] by simp
  qed
qed

lemma tickets_step:
  assumes "tickets_in_order s" "tickets_exist s"
  shows "tickets_in_order (step L e s) \<and> tickets_exist (step L e s)"
proof (cases L e s rule: step_cases)
  case same
  with assms show ?thesis by simp
next
  case invalid
  with assms show ?thesis
    by (fastforce simp add: tickets_in_order_def tickets_exist_def intro: less_SucI)
next
  case (new r u)
  with assms show ?thesis
    by (fastforce simp add: tickets_in_order_def tickets_exist_def sorted_wrt_append
        intro: less_SucI)
next
  case (started x xs)
  with assms show ?thesis by (auto simp add: tickets_in_order_def tickets_exist_def)
next
  case (finished p E x)
  with assms show ?thesis
    by (auto simp add: tickets_in_order_def tickets_exist_def sorted_wrt_append
        sorted_wrt_map sorted_wrt_filter length_resolve)
qed

lemma keys_step:
  assumes "keys_are_web_uris L s"
  shows "keys_are_web_uris L (step L e s)"
proof (cases L e s rule: step_cases)
  case (new r u)
  with assms show ?thesis by (auto simp add: keys_are_web_uris_def)
qed (use assms in \<open>simp_all add: keys_are_web_uris_def\<close>)

lemma filter_out_less:
  assumes "x \<in> set xs" "P x" "\<not> Q x"
  shows "Suc (length (filter P (filter Q xs))) \<le> length (filter P xs)"
proof -
  have "x \<in> set (filter P xs)" using assms by simp
  then have "length (filter Q (filter P xs)) < length (filter P xs)"
    using assms(3) by (rule length_filter_less)
  moreover have "filter Q (filter P xs) = filter P (filter Q xs)"
    by (simp add: conj_commute)
  ultimately show ?thesis by simp
qed

lemma at_most_once_step:
  assumes "\<And>v. at_most_once v s"
  shows "at_most_once u (step L e s)"
proof (cases L e s rule: step_cases)
  case same
  with assms show ?thesis by simp
next
  case invalid
  with assms [of u] show ?thesis by (simp add: at_most_once_def queued_def)
next
  case (new r u')
  show ?thesis
  proof (cases "u' = u")
    case True
    with new assms [of u] show ?thesis by (simp add: at_most_once_def queued_def)
  next
    case False
    with new assms [of u] show ?thesis by (simp add: at_most_once_def queued_def)
  qed
next
  case (started x xs)
  with assms [of u] show ?thesis
    by (auto simp add: at_most_once_def queued_def split: if_splits)
next
  case (finished p E x)
  let ?P = "\<lambda>y. url (fst y) = Some u"
  let ?Q = "\<lambda>y. snd y \<noteq> p"
  have f: "fetches u (snd (processRemoteNode L E (fst x) (world s)))
             \<le> fetches u (world s) + (if ?P x then 1 else 0)"
    by (rule fetches_processRemoteNode)
  have q: "length (filter ?P (filter ?Q (running s))) + (if ?P x then 1 else 0)
             \<le> length (filter ?P (running s))"
  proof (cases "?P x")
    case True
    then show ?thesis
      using filter_out_less [of x "running s" ?P ?Q] finished(1,2) by simp
  next
    case False
    have "length (filter ?Q (filter ?P (running s))) \<le> length (filter ?P (running s))"
      by (rule length_filter_le)
    moreover have "filter ?Q (filter ?P (running s)) = filter ?P (filter ?Q (running s))"
      by (simp add: conj_commute)
    ultimately show ?thesis using False by simp
  qed
  from f q assms [of u] finished(3) show ?thesis
    by (simp add: at_most_once_def queued_def)
qed

lemma invariants_run:
  assumes "tickets_in_order s" "tickets_exist s" "keys_are_web_uris L s" "\<And>v. at_most_once v s"
  shows "tickets_in_order (run L s es) \<and> tickets_exist (run L s es) \<and>
         keys_are_web_uris L (run L s es) \<and> (\<forall>v. at_most_once v (run L s es))"
  using assms
proof (induction es arbitrary: s)
  case Nil
  then show ?case by simp
next
  case (Cons e es)
  have "tickets_in_order (step L e s) \<and> tickets_exist (step L e s)"
    using Cons.prems(1,2) by (rule tickets_step)
  moreover have "keys_are_web_uris L (step L e s)"
    using Cons.prems(3) by (rule keys_step)
  moreover have "\<And>v. at_most_once v (step L e s)"
    using Cons.prems(4) by (rule at_most_once_step)
  ultimately show ?case using Cons.IH [of "step L e s"] by simp
qed

lemma invariants_init:
  "tickets_in_order init" "tickets_exist init" "keys_are_web_uris L init" "at_most_once v init"
  by (simp_all add: init_def tickets_in_order_def tickets_exist_def keys_are_web_uris_def
      at_most_once_def queued_def fetches_def)

subsection \<open>The example run\<close>

lemma ex_valid_config: "valid_config ex_payload" "valid_config ex_user_only"
  by (simp_all add: valid_config_def ex_payload_def ex_user_only_def)

lemma ex_not_inherited:
  "processingCache_get (processingCache init) (Some ex_url) = None"
  by (simp add: processingCache_get_def init_def ex_url_def object_prototype_keys_def)

lemma ex_submit:
  "createRemoteFileNode ex_lib ex_payload init =
     Inr (Promise 0,
          init\<lparr>promises := [Pending], waiting := [(ex_task, 0)],
               processingCache := [ex_url \<mapsto> 0]\<rparr>)"
proof -
  have u: "url ex_payload = Some ex_url" "ex_url \<noteq> []" "isWebUri ex_lib ex_url"
    by (simp_all add: ex_payload_def ex_url_def ex_lib_def)
  have "processingCache_get (processingCache init) (url ex_payload) = None"
    using ex_not_inherited u(1) by simp
  from submit_new [OF ex_valid_config(1) this u] show ?thesis
    by (simp add: init_def ex_task_def ex_payload_def)
qed

lemma ex_started_fields:
  "waiting ex_started = []" "running ex_started = [(ex_task, 0)]"
  "promises ex_started = [Pending]" "processingCache ex_started = [ex_url \<mapsto> 0]"
  "world ex_started = world init"
  by (simp_all add: ex_started_def ex_submit queue_start_def concurrent_def)
    (simp_all add: init_def)

lemma ex_task_fields:
  "url ex_task = Some ex_url" "store ex_task = Store ''/site''" "cache ex_task = Cache"
  "ext ex_task = Some ''.png''" "createNode ex_task = KFunction"
  by (simp_all add: ex_task_def ex_payload_def ex_url_def)

lemma materialise_returns:
  assumes "e = [] \<longrightarrow> readChunk_error E = None"
    and "statusCode resp = 200 \<longrightarrow> move_error E = None"
    and "statusCode resp \<noteq> 200 \<longrightarrow> remove_error E = None"
    and "files w (tmpFilename L d u e) = Some body"
    and "e2 = (if e = []
           then (case fileType L (take (minimumBytes L) body) of
                   Some ft \<Rightarrow> ''.'' @ ft | None \<Rightarrow> [])
           else e)"
    and "createFileNode L (files (snd (materialise L E t u d e resp w))) (filename L d u e2)
           = Inr n"
    and "createNode t = KFunction" "createNode_error E = None"
  shows "fst (materialise L E t u d e resp w) = Inr (FileNode n (file_description u))"
proof -
  let ?w1 = "w\<lparr>reads := (if e = [] then reads w @ [tmpFilename L d u e] else reads w)\<rparr>"
  have g: "guess_ext L E (tmpFilename L d u e) e w = (Inr e2, ?w1)"
    using guess_ext_value [OF assms(1,4)] assms(5) by simp
  let ?m = "if statusCode resp = 200
          then fs_move L E (tmpFilename L d u e) (filename L d u e2)
          else fs_remove E (tmpFilename L d u e)"
  define w2 where "w2 = snd (?m ?w1)"
  have m: "?m ?w1 = (Inr (), w2)"
    using assms(2,3,4)
    by (cases "statusCode resp = 200") (simp_all add: w2_def fs_move_def fs_remove_def)
  let ?rest = "seq (call_createFileNode L (filename L d u e2)) (\<lambda>n.
     seq (call_createNode E (createNode t) (FileNode n (file_description u))) (\<lambda>_.
     return (FileNode n (file_description u))))"
  have unfold: "materialise L E t u d e resp w = ?rest w2"
    unfolding materialise_def
    apply (subst seq_Inr, rule g)
    apply (subst seq_Inr, rule m)
    apply (rule refl)
    done
  have "files (snd (?rest w2)) = files w2"
    by (intro seq_keeps [where g = files] files_createNode
        arg_cong [where f = files] snd_call_createFileNode snd_return)
  with assms(6) unfold have c: "call_createFileNode L (filename L d u e2) w2 = (Inr n, w2)"
    by (simp add: call_createFileNode_def)
  have k: "call_createNode E (createNode t) (FileNode n (file_description u)) w2 =
      (Inr (), w2\<lparr>created := created w2 @ [(FileNode n (file_description u), ''gatsby-source-filesystem'')]\<rparr>)"
    using assms(7,8) by (simp add: call_createNode_def)
  show ?thesis
    unfolding unfold
    apply (subst seq_Inr, rule c)
    apply (subst seq_Inr, rule k)
    apply (simp add: return_def)
    done
qed

lemma processRemoteNode_returns_node:
  assumes "reaches_fetch E t d u" "stream E = Response st hs body" "cache_set_error E = None"
    and "first_ext L (ext t) u = [] \<longrightarrow> readChunk_error E = None"
    and "st = 200 \<longrightarrow> move_error E = None"
    and "st \<noteq> 200 \<longrightarrow> remove_error E = None"
    and "createFileNode L (files (snd (processRemoteNode L E t w)))
           (filename L d u (final_ext L (ext t) u body)) = Inr n"
    and "createNode t = KFunction" "createNode_error E = None"
  shows "fst (processRemoteNode L E t w) = Inr (NodeValue (FileNode n (file_description u)))"
proof -
  let ?w1 = "w\<lparr>dirs := insert (pluginCacheDir L d) (dirs w)\<rparr>"
  let ?rh = "request_headers (default_auth (auth t)) (hcache w (cacheId u))"
  let ?e = "first_ext L (ext t) u"
  let ?w2 = "?w1\<lparr>requests := requests ?w1 @ [GotStream u ?rh 30000 5],
          files := (files ?w1)(tmpFilename L d u ?e \<mapsto> body),
          hcache := (hcache ?w1)(cacheId u \<mapsto> hs)\<rparr>"
  have p: "processRemoteNode L E t w =
      try_or_null (materialise L E t u d ?e \<lparr>statusCode = st, headers = hs\<rparr>) ?w2"
    by (simp add: processRemoteNode_setup [OF assms(1)] try_or_null_def
        fetch_block_response [OF assms(2,3)])
  have "fst (materialise L E t u d ?e \<lparr>statusCode = st, headers = hs\<rparr> ?w2)
          = Inr (FileNode n (file_description u))"
    apply (rule materialise_returns [where body = body
          and ?e2.0 = "final_ext L (ext t) u body"])
    using assms(4-9) by (simp_all add: p snd_try_or_null final_ext_def)
  then show ?thesis by (simp add: p fst_try_or_null)
qed

lemma ex_done_fields:
  "waiting ex_done = []" "running ex_done = []"
  "promises ex_done =
     [Resolved (NodeValue (FileNode ''/site/.cache/gatsby-source-filesystem/0f3a/logo.png''
                             (file_description ex_url)))]"
  "processingCache ex_done = [ex_url \<mapsto> 0]"
proof -
  have f: "find (\<lambda>x. snd x = 0) (running ex_started) = Some (ex_task, 0)"
    by (simp add: ex_started_fields)
  have r: "reaches_fetch ex_200 ex_task ''/site'' ex_url"
    by (simp add: reaches_fetch_def ex_task_fields ex_200_def ex_effects_def)
  have fs: "files (snd (processRemoteNode ex_lib ex_200 ex_task (world init)))
              ''/site/.cache/gatsby-source-filesystem/0f3a/logo.png'' = Some ''GIF89a''"
    using files_after_response [OF r, of 200 "[(''etag'', ''v2'')]" "''GIF89a''" ex_lib "world init"]
    by (simp add: ex_200_def ex_effects_def ex_task_fields ex_paths ex_exts)
  have v: "fst (processRemoteNode ex_lib ex_200 ex_task (world init)) =
      Inr (NodeValue (FileNode ''/site/.cache/gatsby-source-filesystem/0f3a/logo.png''
                        (file_description ex_url)))"
    apply (rule processRemoteNode_returns_node [OF r, where st = 200
          and hs = "[(''etag'', ''v2'')]" and body = "''GIF89a''"])
    using fs by (simp_all add: ex_200_def ex_effects_def ex_task_fields ex_paths ex_exts)
      (simp add: ex_lib_def)
  show "waiting ex_done = []" "running ex_done = []"
    "promises ex_done =
     [Resolved (NodeValue (FileNode ''/site/.cache/gatsby-source-filesystem/0f3a/logo.png''
                             (file_description ex_url)))]"
    "processingCache ex_done = [ex_url \<mapsto> 0]"
    by (simp_all add: ex_done_def queue_finish_present [OF f] v ex_started_fields resolve_def)
qed

subsection \<open>The index of promises\<close>

lemma submit_all_existing:
  assumes "\<forall>r \<in> set rs. valid_config r \<and> url r = Some u" "processingCache s u = Some p"
  shows "submit_all L rs s = (replicate (length rs) (Inr (Promise p)), s)"
  using assms by (induction rs) (simp_all add: submit_existing)

lemma at_most_once_reachable: "at_most_once u (run L init evs)"
  using invariants_run [OF invariants_init(1) invariants_init(2) invariants_init(3)
      invariants_init(4)]
  by blast

text \<open>
  C1, as amended. The entry of a url in the index is never removed: whatever happens
  afterwards, the finishing of its task included, the url still has the promise it was
  given, and a later call for it returns that promise and leaves the state as it is,
  so no new task is pushed.
\<close>

theorem entry_kept_after_completion:
  assumes "processingCache s u = Some p" "valid_config r" "url r = Some u"
  shows "processingCache (run L s evs) u = Some p \<and>
         createRemoteFileNode L r (run L s evs) = Inr (Promise p, run L s evs)"
proof -
  have "processingCache (run L s evs) u = Some p"
    using assms(1) by (rule entry_kept_run)
  then show ?thesis using assms(2,3) by (simp add: submit_existing)
qed

theorem entry_kept_after_completion_witness:
  "processingCache ex_started ex_url = Some 0 \<and> valid_config ex_payload \<and>
   url ex_payload = Some ex_url \<and>
   processingCache (run ex_lib ex_started [Finish 0 ex_200]) ex_url = Some 0 \<and>
   createRemoteFileNode ex_lib ex_payload (run ex_lib ex_started [Finish 0 ex_200])
     = Inr (Promise 0, run ex_lib ex_started [Finish 0 ex_200])"
  using entry_kept_after_completion
    [of ex_started ex_url 0 ex_payload ex_lib "[Finish 0 ex_200]"]
  by (simp add: ex_started_fields ex_valid_config) (simp add: ex_payload_def ex_url_def)

text \<open>The claim as it was stated fails on the example: after the task of the url has
  finished and its promise is resolved with the node, nothing waits or runs, the url
  still has its entry, and a new call returns the stored promise and pushes nothing.\<close>

theorem submit_after_completion_returns_stored_promise:
  "promises ex_done ! 0 =
     Resolved (NodeValue (FileNode ''/site/.cache/gatsby-source-filesystem/0f3a/logo.png''
                            (file_description ex_url))) \<and>
   waiting ex_done = [] \<and> running ex_done = [] \<and>
   processingCache ex_done ex_url = Some 0 \<and>
   createRemoteFileNode ex_lib ex_payload ex_done = Inr (Promise 0, ex_done)"
proof -
  have "processingCache ex_done ex_url = Some 0" by (simp add: ex_done_fields)
  moreover have "url ex_payload = Some ex_url" by (simp add: ex_payload_def ex_url_def)
  ultimately have "createRemoteFileNode ex_lib ex_payload ex_done = Inr (Promise 0, ex_done)"
    using ex_valid_config(1) by (simp add: submit_existing)
  then show ?thesis by (simp add: ex_done_fields)
qed

text \<open>
  C9. In every run of the module at most 200 tasks run at the same time, however
  many urls were submitted. Tickets are given out in the order of admission, and at
  every moment the tickets of the running tasks followed by those of the waiting
  tasks are in increasing order: the tasks that wait were admitted after every task
  that was started before them, and they wait in the order of their admission.
\<close>

theorem at_most_200_tasks_run:
  "length (running (run L init evs)) \<le> 200 \<and>
   sorted_wrt (<) (map snd (running (run L init evs) @ waiting (run L init evs)))"
proof -
  have "length (running (init :: 'a system)) \<le> concurrent" by (simp add: init_def)
  then have "length (running (run L init evs)) \<le> concurrent" by (rule running_bound_run)
  moreover have "tickets_in_order (run L init evs)"
    using invariants_run [OF invariants_init(1) invariants_init(2) invariants_init(3)
        invariants_init(4)]
    by blast
  ultimately show ?thesis by (simp add: concurrent_def tickets_in_order_def)
qed

subsection \<open>Failures\<close>

lemma ensureDir_failure:
  assumes "store t = Store d" "ensureDir_error E = Some e"
  shows "processRemoteNode L E t w = (Inl e, w)"
  using assms by (simp add: processRemoteNode_def seq_def fs_ensureDir_def)

lemma cache_get_failure:
  assumes "store t = Store d" "ensureDir_error E = None" "cache t = Cache"
    "cache_get_error E = Some e"
  shows "fst (processRemoteNode L E t w) = Inl e"
  using assms by (simp add: processRemoteNode_def seq_def fs_ensureDir_def cache_get_def)

text \<open>Once the task is in its \<open>try\<close>, it returns null or the node, whatever fails.\<close>

lemma null_or_node:
  assumes "reaches_fetch E t d u"
  shows "fst (processRemoteNode L E t w) = Inr Null \<or>
         (\<exists>n. fst (processRemoteNode L E t w) = Inr (NodeValue n))"
  by (simp add: processRemoteNode_setup [OF assms] fst_try_or_null split: sum.splits)

lemma stream_error_gives_null:
  assumes "reaches_fetch E t d u"
    and "stream E = ResponseError err b \<or> stream E = WriteError err (Some b)"
  shows "fst (processRemoteNode L E t w) = Inr Null"
  using assms(2)
  by (auto simp add: processRemoteNode_setup [OF assms(1)] fst_try_or_null
      fetch_block_ResponseError fetch_block_WriteError)

text \<open>The finishing of a task touches no other task and no other promise.\<close>

lemma finish_leaves_the_rest:
  "waiting (queue_finish L p E s) = waiting s"
  "running (queue_finish L p E s) = filter (\<lambda>y. snd y \<noteq> p) (running s)"
  "processingCache (queue_finish L p E s) = processingCache s"
  "q \<noteq> p \<Longrightarrow> promises (queue_finish L p E s) ! q = promises s ! q"
proof -
  have n: "filter (\<lambda>y. snd y \<noteq> p) (running s) = running s"
    if "find (\<lambda>x. snd x = p) (running s) = None"
    using that by (auto simp add: find_None_iff filter_id_conv)
  show "waiting (queue_finish L p E s) = waiting s"
    by (cases L p E s rule: queue_finish_cases) simp_all
  show "running (queue_finish L p E s) = filter (\<lambda>y. snd y \<noteq> p) (running s)"
    by (cases "find (\<lambda>x. snd x = p) (running s)")
      (simp_all add: queue_finish_absent queue_finish_present n)
  show "processingCache (queue_finish L p E s) = processingCache s"
    by (cases L p E s rule: queue_finish_cases) simp_all
  show "q \<noteq> p \<Longrightarrow> promises (queue_finish L p E s) ! q = promises s ! q"
    by (cases L p E s rule: queue_finish_cases) (simp_all add: resolve_other)
qed

text \<open>No promise of the module is ever rejected.\<close>

lemma never_rejected_step:
  assumes "Rejected e \<notin> set (promises s)"
  shows "Rejected e \<notin> set (promises (step L ev s))"
proof (cases L ev s rule: step_cases)
  case (finished p E x)
  have "set (resolve p v ps) \<subseteq> insert (Resolved v) (set ps)" for v and ps :: "'a promise list"
    using set_update_subset_insert [of ps p "Resolved v"] by (auto simp add: resolve_def)
  with finished(3) assms show ?thesis by auto
qed (use assms in simp_all)

lemma never_rejected: "Rejected e \<notin> set (promises (run L init evs))"
proof -
  have "Rejected e \<notin> set (promises s) \<Longrightarrow> Rejected e \<notin> set (promises (run L s evs))" for s
    by (induction evs arbitrary: s) (simp_all add: never_rejected_step)
  then show ?thesis by (simp add: init_def)
qed

text \<open>
  C7. A task that fails before its download (here: the cache directory cannot be
  made) rejects the promise of \<open>processRemoteNode\<close>; \<open>pushToQueue\<close> catches the
  error and calls back with it as the result, so the caller's promise is resolved
  with the error object, not with null.
\<close>

theorem failure_before_download_resolves_with_error_object:
  assumes "find (\<lambda>x. snd x = p) (running s) = Some x" "store (fst x) = Store d"
    and "ensureDir_error E = Some e" "p < length (promises s)" "promises s ! p = Pending"
  shows "promises (queue_finish L p E s) ! p = Resolved (ErrorValue e)"
  using assms(4,5)
  by (simp add: queue_finish_present [OF assms(1)] ensureDir_failure [OF assms(2,3)]
      resolve_pending)

theorem failure_before_download_witness:
  "find (\<lambda>x. snd x = 0) (running ex_started) = Some (ex_task, 0) \<and>
   store (fst (ex_task, 0::nat)) = Store ''/site'' \<and>
   ensureDir_error ex_no_dir = Some (IOError ''EACCES'') \<and>
   0 < length (promises ex_started) \<and> promises ex_started ! 0 = Pending \<and>
   promises (queue_finish ex_lib 0 ex_no_dir ex_started) ! 0
     = Resolved (ErrorValue (IOError ''EACCES''))"
  using failure_before_download_resolves_with_error_object
    [of 0 ex_started "(ex_task, 0)" "''/site''" ex_no_dir "IOError ''EACCES''" ex_lib]
  by (simp add: ex_started_fields ex_task_fields ex_no_dir_def)

lemma failure_in_download_resolves_with_null:
  assumes "find (\<lambda>x. snd x = p) (running s) = Some x" "reaches_fetch E (fst x) d u"
    and "stream E = ResponseError err b \<or> stream E = WriteError err (Some b)"
    and "p < length (promises s)" "promises s ! p = Pending"
  shows "promises (queue_finish L p E s) ! p = Resolved Null"
  using assms(4,5)
  by (simp add: queue_finish_present [OF assms(1)] stream_error_gives_null [OF assms(2,3)]
      resolve_pending)

subsection \<open>Urls that are not web uris\<close>

text \<open>In a state the module can be in, a url that is not a web uri and is not the name
  of a member of \<open>Object.prototype\<close> gets a new promise, resolved with undefined;
  no task is pushed and the world is as it was.\<close>

lemma invalid_url_resolves_undefined:
  assumes "valid_config r" "\<not> truthy (url r) \<or> \<not> isWebUri L (render (url r))"
    and "\<not> isWebUri L ''undefined''"
    and "render (url r) \<notin> set object_prototype_keys"
  shows "createRemoteFileNode L r (run L init evs) =
     Inr (Promise (length (promises (run L init evs))),
          (run L init evs)\<lparr>promises := promises (run L init evs) @ [Resolved Undefined]\<rparr>)"
proof -
  let ?s = "run L init evs"
  have k: "keys_are_web_uris L ?s"
    using invariants_run [OF invariants_init(1) invariants_init(2) invariants_init(3)
        invariants_init(4)]
    by blast
  have "processingCache ?s (render (url r)) = None"
  proof (rule ccontr)
    assume "processingCache ?s (render (url r)) \<noteq> None"
    then have "render (url r) \<in> dom (processingCache ?s)" by auto
    with k have v: "render (url r) \<noteq> []" "isWebUri L (render (url r))"
      by (auto simp add: keys_are_web_uris_def)
    with assms(2,3) show False by (cases "url r") auto
  qed
  with assms(4) have "processingCache_get (processingCache ?s) (url r) = None"
    by (simp add: processingCache_get_def)
  with assms(1) show ?thesis using assms(2) by (rule submit_invalid)
qed

text \<open>
  C8. The url \<open>constructor\<close> is not a web uri, yet the entry point does not return
  a promise of an empty result for it: the index is read before the url is checked,
  the index is an object literal, and reading it at \<open>constructor\<close> finds the member
  it inherits from \<open>Object.prototype\<close>, which is returned as it is.
\<close>

theorem inherited_member_returned_for_invalid_url:
  "\<not> isWebUri ex_lib ''constructor'' \<and> valid_config ex_constructor \<and>
   createRemoteFileNode L ex_constructor init = Inr (Inherited ''constructor'', init)"
proof -
  have v: "valid_config ex_constructor"
    by (simp add: valid_config_def ex_constructor_def ex_payload_def)
  have "processingCache_get (processingCache init) (url ex_constructor)
          = Some (Inherited ''constructor'')"
    by (simp add: processingCache_get_def init_def ex_constructor_def
        object_prototype_keys_def)
  with v have "createRemoteFileNode L ex_constructor init = Inr (Inherited ''constructor'', init)"
    by (rule submit_hit)
  with v show ?thesis by (simp add: ex_lib_def)
qed

subsection \<open>One download for many calls\<close>

lemma indexed_step:
  assumes "tickets_indexed s"
  shows "tickets_indexed (step L e s)"
proof (cases L e s rule: step_cases)
  case same
  with assms show ?thesis by simp
next
  case invalid
  with assms show ?thesis by (simp add: tickets_indexed_def)
next
  case (new r u)
  have "\<exists>v. url (fst x) = Some v \<and>
          ((processingCache s)(u \<mapsto> length (promises s))) v = Some (snd x)"
    if "x \<in> set (waiting s @ running s)" for x
  proof -
    from assms that obtain v where v: "url (fst x) = Some v" "processingCache s v = Some (snd x)"
      by (auto simp add: tickets_indexed_def)
    with new(6) have "v \<noteq> u" by auto
    with v show ?thesis by auto
  qed
  with new show ?thesis by (auto simp add: tickets_indexed_def)
next
  case (started x xs)
  with assms show ?thesis by (auto simp add: tickets_indexed_def)
next
  case (finished p E x)
  with assms show ?thesis by (auto simp add: tickets_indexed_def)
qed

lemma pending_step:
  assumes "tickets_in_order s" "tickets_exist s" "tickets_pending s"
  shows "tickets_pending (step L e s)"
proof (cases L e s rule: step_cases)
  case same
  with assms show ?thesis by simp
next
  case invalid
  with assms show ?thesis
    by (auto simp add: tickets_pending_def tickets_exist_def nth_append)
next
  case (new r u)
  with assms show ?thesis
    by (auto simp add: tickets_pending_def tickets_exist_def nth_append)
next
  case (started x xs)
  with assms show ?thesis by (auto simp add: tickets_pending_def)
next
  case (finished p E x)
  have "promises (step L e s) ! snd y = Pending"
    if y: "y \<in> set (waiting s @ filter (\<lambda>y. snd y \<noteq> p) (running s))" for y
  proof -
    have "snd y \<noteq> p"
    proof (cases "y \<in> set (waiting s)")
      case True
      with assms(1) finished(1) have "snd x < snd y"
        by (auto simp add: tickets_in_order_def sorted_wrt_append)
      with finished(2) show ?thesis by simp
    next
      case False
      with y show ?thesis by simp
    qed
    moreover have "promises s ! snd y = Pending"
      using assms(3) y by (auto simp add: tickets_pending_def)
    ultimately show ?thesis using finished(3) by (simp add: resolve_other)
  qed
  with finished(3) show ?thesis by (simp add: tickets_pending_def)
qed

lemma ticket_invariants_run:
  assumes "tickets_in_order s" "tickets_exist s" "tickets_indexed s" "tickets_pending s"
  shows "tickets_exist (run L s es) \<and> tickets_indexed (run L s es) \<and>
         tickets_pending (run L s es)"
  using assms
proof (induction es arbitrary: s)
  case Nil
  then show ?case by simp
next
  case (Cons e es)
  have "tickets_in_order (step L e s) \<and> tickets_exist (step L e s)"
    using Cons.prems(1,2) by (rule tickets_step)
  moreover have "tickets_indexed (step L e s)"
    using Cons.prems(3) by (rule indexed_step)
  moreover have "tickets_pending (step L e s)"
    using Cons.prems(1,2,4) by (rule pending_step)
  ultimately show ?case using Cons.IH [of "step L e s"] by simp
qed

lemma ticket_invariants_reachable:
  "tickets_exist (run L init evs)" "tickets_indexed (run L init evs)"
  "tickets_pending (run L init evs)"
proof -
  have "tickets_indexed (init :: 'a system)" "tickets_pending (init :: 'a system)"
    by (simp_all add: tickets_indexed_def tickets_pending_def init_def)
  with ticket_invariants_run [OF invariants_init(1) invariants_init(2)]
  show "tickets_exist (run L init evs)" "tickets_indexed (run L init evs)"
    "tickets_pending (run L init evs)"
    by blast+
qed

text \<open>When a task that gets as far as its download finishes, the download of its url
  is the first and only one, and the promise in the index for that url is resolved,
  with null or with the node.\<close>

lemma finish_makes_the_one_download:
  assumes "find (\<lambda>x. snd x = p) (running (run L init evs)) = Some x"
    and "reaches_fetch E (fst x) d u"
  shows "fetches u (world (queue_finish L p E (run L init evs))) = 1"
    and "processingCache (queue_finish L p E (run L init evs)) u = Some p"
    and "promises (queue_finish L p E (run L init evs)) ! p = Resolved Null \<or>
         (\<exists>n. promises (queue_finish L p E (run L init evs)) ! p = Resolved (NodeValue n))"
proof -
  let ?s = "run L init evs"
  let ?P = "\<lambda>y. url (fst y) = Some u"
  have x: "x \<in> set (running ?s)" "snd x = p"
    using assms(1) by (auto simp add: find_Some_iff)
  have u: "url (fst x) = Some u" using assms(2) by (simp add: reaches_fetch_def)
  have "x \<in> set (filter ?P (waiting ?s @ running ?s))" using x u by simp
  then have "0 < queued u ?s" unfolding queued_def by (rule length_pos_if_in_set)
  moreover have "queued u ?s + fetches u (world ?s) \<le> 1"
    using at_most_once_reachable [of u L evs]
    by (simp add: at_most_once_def split: option.splits)
  ultimately have f0: "fetches u (world ?s) = 0" by simp
  show "fetches u (world (queue_finish L p E ?s)) = 1"
    using f0
    by (simp add: queue_finish_present [OF assms(1)] fetches_def
        requests_processRemoteNode [OF assms(2)])
  from ticket_invariants_reachable(2) [of L evs] x obtain v
    where "url (fst x) = Some v" "processingCache ?s v = Some p"
    by (auto simp add: tickets_indexed_def)
  with u show "processingCache (queue_finish L p E ?s) u = Some p"
    by (simp add: finish_leaves_the_rest)
  have p: "p < length (promises ?s)" "promises ?s ! p = Pending"
    using ticket_invariants_reachable(1,3) [of L evs] x
    by (auto simp add: tickets_exist_def tickets_pending_def)
  show "promises (queue_finish L p E ?s) ! p = Resolved Null \<or>
         (\<exists>n. promises (queue_finish L p E ?s) ! p = Resolved (NodeValue n))"
    using null_or_node [OF assms(2), of L "world ?s"] p
    by (auto simp add: queue_finish_present [OF assms(1)] resolve_pending)
qed

lemma ex_three_calls:
  "run ex_lib init [Submit ex_payload, Submit ex_user_only, Submit ex_payload, Start]
     = ex_started"
proof -
  let ?s1 = "init\<lparr>promises := [Pending], waiting := [(ex_task, 0)],
               processingCache := [ex_url \<mapsto> 0]\<rparr> :: string system"
  have u: "url ex_payload = Some ex_url" "url ex_user_only = Some ex_url"
    by (simp_all add: ex_payload_def ex_user_only_def)
  have h: "createRemoteFileNode ex_lib r ?s1 = Inr (Promise 0, ?s1)"
    if "valid_config r" "url r = Some ex_url" for r
    using that by (simp add: submit_existing)
  show ?thesis
    by (simp add: ex_started_def ex_submit h ex_valid_config u)
qed

text \<open>
  C2. A call for a url that has an entry in the index returns the promise of that
  entry and leaves the state as it is: no task is pushed. So calls for one new web
  uri, one after the other, all return the promise the first of them made, and the
  state after them is the state after the first: one task more in the queue. (Every
  call passes the four checks of the entry point.) In every run of the module, the
  tasks in the queue and the downloads started for one url are at most one
  altogether; and when the task of the url finishes, having got as far as its
  download, exactly one download of the url has been made, and the promise all the
  calls returned, still the entry of the url, is resolved with one value, null or the
  node.
\<close>

theorem concurrent_submits_share_one_task:
  assumes "\<forall>r \<in> set (r0 # rs). valid_config r \<and> url r = Some u"
  shows "(processingCache s u = Some p \<longrightarrow>
            createRemoteFileNode L r0 s = Inr (Promise p, s)) \<and>
         (u \<noteq> [] \<and> isWebUri L u \<and>
          processingCache_get (processingCache s) (Some u) = None \<longrightarrow>
            submit_all L (r0 # rs) s =
              (replicate (Suc (length rs)) (Inr (Promise (length (promises s)))),
               s\<lparr>promises := promises s @ [Pending],
                 waiting := waiting s @
                   [(r0\<lparr>auth := default_auth (auth r0)\<rparr>, length (promises s))],
                 processingCache := (processingCache s)(u \<mapsto> length (promises s))\<rparr>)) \<and>
         queued u (run L init evs) + fetches u (world (run L init evs)) \<le> 1 \<and>
         (find (\<lambda>y. snd y = q) (running (run L init evs)) = Some x \<and>
          reaches_fetch E (fst x) d u \<longrightarrow>
            fetches u (world (queue_finish L q E (run L init evs))) = 1 \<and>
            processingCache (queue_finish L q E (run L init evs)) u = Some q \<and>
            (promises (queue_finish L q E (run L init evs)) ! q = Resolved Null \<or>
             (\<exists>n. promises (queue_finish L q E (run L init evs)) ! q
                    = Resolved (NodeValue n))))"
proof (intro conjI impI)
  assume "processingCache s u = Some p"
  with assms show "createRemoteFileNode L r0 s = Inr (Promise p, s)"
    by (simp add: submit_existing)
next
  assume a: "u \<noteq> [] \<and> isWebUri L u \<and> processingCache_get (processingCache s) (Some u) = None"
  let ?s1 = "s\<lparr>promises := promises s @ [Pending],
                 waiting := waiting s @
                   [(r0\<lparr>auth := default_auth (auth r0)\<rparr>, length (promises s))],
                 processingCache := (processingCache s)(u \<mapsto> length (promises s))\<rparr>"
  have r0: "valid_config r0" "url r0 = Some u" using assms by simp_all
  have "processingCache_get (processingCache s) (url r0) = None" using a r0 by simp
  then have 1: "createRemoteFileNode L r0 s = Inr (Promise (length (promises s)), ?s1)"
    using a r0 by (intro submit_new) simp_all
  have rs: "\<forall>r \<in> set rs. valid_config r \<and> url r = Some u" using assms by simp
  have "processingCache ?s1 u = Some (length (promises s))" by simp
  with rs have "submit_all L rs ?s1 = (replicate (length rs) (Inr (Promise (length (promises s)))), ?s1)"
    by (rule submit_all_existing)
  with 1 show "submit_all L (r0 # rs) s =
      (replicate (Suc (length rs)) (Inr (Promise (length (promises s)))), ?s1)"
    by simp
next
  show "queued u (run L init evs) + fetches u (world (run L init evs)) \<le> 1"
    using at_most_once_reachable [of u L evs]
    by (simp add: at_most_once_def split: option.splits)
next
  assume f: "find (\<lambda>y. snd y = q) (running (run L init evs)) = Some x \<and>
    reaches_fetch E (fst x) d u"
  then have f1: "find (\<lambda>y. snd y = q) (running (run L init evs)) = Some x"
    and f2: "reaches_fetch E (fst x) d u"
    by simp_all
  show "fetches u (world (queue_finish L q E (run L init evs))) = 1"
    using f1 f2 by (rule finish_makes_the_one_download(1))
  show "processingCache (queue_finish L q E (run L init evs)) u = Some q"
    using f1 f2 by (rule finish_makes_the_one_download(2))
  show "promises (queue_finish L q E (run L init evs)) ! q = Resolved Null \<or>
      (\<exists>n. promises (queue_finish L q E (run L init evs)) ! q = Resolved (NodeValue n))"
    using f1 f2 by (rule finish_makes_the_one_download(3))
qed

theorem concurrent_submits_share_one_task_witness:
  "valid_config ex_payload \<and> url ex_payload = Some ex_url \<and>
   valid_config ex_user_only \<and> url ex_user_only = Some ex_url \<and>
   processingCache ex_started ex_url = Some 0 \<and>
   createRemoteFileNode ex_lib ex_user_only ex_started = Inr (Promise 0, ex_started) \<and>
   ex_url \<noteq> [] \<and> isWebUri ex_lib ex_url \<and>
   processingCache_get (processingCache init) (Some ex_url) = None \<and>
   submit_all ex_lib [ex_payload, ex_user_only, ex_payload] init =
     ([Inr (Promise 0), Inr (Promise 0), Inr (Promise 0)],
      init\<lparr>promises := [Pending], waiting := [(ex_task, 0)],
           processingCache := [ex_url \<mapsto> 0]\<rparr>) \<and>
   find (\<lambda>y. snd y = 0)
     (running (run ex_lib init
        [Submit ex_payload, Submit ex_user_only, Submit ex_payload, Start]))
     = Some (ex_task, 0) \<and>
   reaches_fetch ex_200 (fst (ex_task, 0::nat)) ''/site'' ex_url \<and>
   fetches ex_url
     (world (queue_finish ex_lib 0 ex_200
        (run ex_lib init
           [Submit ex_payload, Submit ex_user_only, Submit ex_payload, Start]))) = 1 \<and>
   processingCache
     (queue_finish ex_lib 0 ex_200
        (run ex_lib init
           [Submit ex_payload, Submit ex_user_only, Submit ex_payload, Start])) ex_url
     = Some 0 \<and>
   promises
     (queue_finish ex_lib 0 ex_200
        (run ex_lib init
           [Submit ex_payload, Submit ex_user_only, Submit ex_payload, Start])) ! 0
     = Resolved (NodeValue (FileNode ''/site/.cache/gatsby-source-filesystem/0f3a/logo.png''
                              (file_description ex_url)))"
proof -
  have d: "queue_finish ex_lib 0 ex_200 ex_started = ex_done"
    by (simp add: ex_done_def)
  have r: "reaches_fetch ex_200 ex_task ''/site'' ex_url"
    by (simp add: reaches_fetch_def ex_task_fields ex_200_def ex_effects_def)
  note e = ex_three_calls
  show ?thesis
    unfolding e
    using concurrent_submits_share_one_task
      [where ?r0.0 = ex_user_only and rs = "[]" and u = ex_url and s = ex_started
         and p = 0 and L = ex_lib and evs = "[]" and q = 0 and x = "(ex_task, 0)"
         and E = ex_200 and d = "''/site''"]
      concurrent_submits_share_one_task
      [where ?r0.0 = ex_payload and rs = "[ex_user_only, ex_payload]" and u = ex_url
         and s = "init :: string system" and p = 0 and L = ex_lib
         and evs = "[Submit ex_payload, Submit ex_user_only, Submit ex_payload, Start]"
         and q = 0 and x = "(ex_task, 0)" and E = ex_200 and d = "''/site''",
         unfolded e]
      ex_not_inherited r
    by (simp add: ex_valid_config ex_started_fields ex_done_fields d ex_task_def
        del: run.simps)
      (simp add: ex_payload_def ex_user_only_def ex_url_def ex_lib_def init_def
        del: run.simps)
qed

end
